theory Spec2Isabelle
  imports Complex_Main "HOL-Library.List_Lexorder" "HOL-Library.Char_ord"
begin

section \<open>Floating-point values as the code observes them\<close>

text \<open>
  The importers only ever test floats (\<open>isnan\<close>, \<open>isfinite\<close>, \<open>>\<close>, \<open>>=\<close>), negate
  them and take the sign of a difference.  None of these operations rounds, so a float
  is modelled by its exact value: a finite real, one of the two infinities, or NaN.
\<close>

datatype fl = NaN | PInf | NInf | Fin real

fun isnan :: "fl \<Rightarrow> bool" where
  "isnan NaN = True"
| "isnan _ = False"

fun isfinite :: "fl \<Rightarrow> bool" where
  "isfinite (Fin _) = True"
| "isfinite _ = False"

fun fl_neg :: "fl \<Rightarrow> fl" where
  "fl_neg NaN = NaN"
| "fl_neg PInf = NInf"
| "fl_neg NInf = PInf"
| "fl_neg (Fin r) = Fin (- r)"

text \<open>\<open>a > b\<close> on floats: every comparison with NaN is false.\<close>

fun fl_gt :: "fl \<Rightarrow> fl \<Rightarrow> bool" where
  "fl_gt NaN _ = False"
| "fl_gt _ NaN = False"
| "fl_gt NInf _ = False"
| "fl_gt _ PInf = False"
| "fl_gt PInf _ = True"
| "fl_gt _ NInf = True"
| "fl_gt (Fin a) (Fin b) = (a > b)"

section \<open>Python values shared by the importers\<close>

datatype py_error = IndexError | KeyError | ValueError | OSError | OverflowError

text \<open>
  Strings are lists of characters with code points below 256.  \<open>str.strip()\<close> removes
  the white space of Python at both ends; \<open>s.split(sep)\<close> cuts at every occurrence of
  a non-empty separator, scanning from the left.
\<close>

definition isspace :: "char \<Rightarrow> bool" where
  "isspace c = (c \<in> set [CHR 0x09, CHR 0x0A, CHR 0x0B, CHR 0x0C, CHR 0x0D, CHR 0x1C, CHR 0x1D,
                          CHR 0x1E, CHR 0x1F, CHR 0x20, CHR 0x85, CHR 0xA0])"

definition strip :: "string \<Rightarrow> string" where
  "strip s = rev (dropWhile isspace (rev (dropWhile isspace s)))"

function split_from :: "string \<Rightarrow> string \<Rightarrow> string \<Rightarrow> string list" where
  "split_from sep cur s =
     (if s = [] then [rev cur]
      else if sep \<noteq> [] \<and> take (length sep) s = sep
        then rev cur # split_from sep [] (drop (length sep) s)
      else split_from sep (hd s # cur) (tl s))"
  by pat_completeness auto
termination
  by (relation "measure (\<lambda>(sep, cur, s). length s)") auto

definition split :: "string \<Rightarrow> string \<Rightarrow> string list" where
  "split s sep = split_from sep [] s"


definition getitem :: "(string \<rightharpoonup> string) \<Rightarrow> string \<Rightarrow> py_error + string" where
  "getitem d k = (case d k of None \<Rightarrow> Inl KeyError | Some v \<Rightarrow> Inr v)"

definition list_getitem :: "'a list \<Rightarrow> nat \<Rightarrow> py_error + 'a" where
  "list_getitem xs i = (if i < length xs then Inr (xs ! i) else Inl IndexError)"

text \<open>Running a fallible step over a list stops at the first error.\<close>

fun map_result :: "('a \<Rightarrow> py_error + 'b) \<Rightarrow> 'a list \<Rightarrow> py_error + 'b list" where
  "map_result f [] = Inr []"
| "map_result f (v # vs) =
     (case f v of
        Inl e \<Rightarrow> Inl e
      | Inr w \<Rightarrow> (case map_result f vs of Inl e \<Rightarrow> Inl e | Inr ws \<Rightarrow> Inr (w # ws)))"

text \<open>
  \<open>int(s)\<close> on a string.  The parser of \<open>int\<close> skips, at both ends, the white space of C
  (\<open>\t\<close>, \<open>\n\<close>, \<open>\x0b\<close>, \<open>\x0c\<close>, \<open>\r\<close> and the blank) and the white space above the
  ASCII range; unlike \<open>str.strip()\<close> it does not skip the separators \<open>\x1c\<close> to \<open>\x1f\<close>.
  Then come an optional sign and a run of decimal digits in which single underscores
  may stand between two digits; a numeral of more than 4300 digits is refused.
  \<open>str(n)\<close> on an integer writes it back in decimal.
\<close>

definition int_space :: "char \<Rightarrow> bool" where
  "int_space c = (c \<in> set [CHR 0x09, CHR 0x0A, CHR 0x0B, CHR 0x0C, CHR 0x0D, CHR 0x20,
                            CHR 0x85, CHR 0xA0])"

definition int_strip :: "string \<Rightarrow> string" where
  "int_strip s = rev (dropWhile int_space (rev (dropWhile int_space s)))"

definition digit_val :: "char \<Rightarrow> int" where
  "digit_val c = int (of_char c) - 48"

definition is_digit :: "char \<Rightarrow> bool" where
  "is_digit c = (c \<in> set ''0123456789'')"

fun digits_val :: "int \<Rightarrow> string \<Rightarrow> int" where
  "digits_val acc [] = acc"
| "digits_val acc (c # s) = digits_val (10 * acc + digit_val c) s"

text \<open>
  The digits of a numeral, its underscores removed; \<open>None\<close> when the text is not a
  numeral.  The flag tells whether the character before was a digit.
\<close>

fun numeral_digits :: "bool \<Rightarrow> string \<Rightarrow> string option" where
  "numeral_digits after_digit [] = (if after_digit then Some [] else None)"
| "numeral_digits after_digit (c # s) =
     (if is_digit c then map_option ((#) c) (numeral_digits True s)
      else if c = CHR ''_'' \<and> after_digit then numeral_digits False s
      else None)"

definition py_int :: "string \<Rightarrow> py_error + int" where
  "py_int s =
     (let t = int_strip s;
          negative = (t \<noteq> [] \<and> hd t = CHR ''-'');
          body = (if t \<noteq> [] \<and> (hd t = CHR ''-'' \<or> hd t = CHR ''+'') then tl t else t)
      in case numeral_digits False body of
           None \<Rightarrow> Inl ValueError
         | Some ds \<Rightarrow>
             if length ds > 4300 then Inl ValueError
             else Inr (if negative then - digits_val 0 ds else digits_val 0 ds))"

fun str_nat :: "nat \<Rightarrow> string" where
  "str_nat n =
     (if n < 10 then [''0123456789'' ! n]
      else str_nat (n div 10) @ [''0123456789'' ! (n mod 10)])"

definition str_int :: "int \<Rightarrow> string" where
  "str_int i = (if i < 0 then CHR ''-'' # str_nat (nat (- i)) else str_nat (nat i))"


text \<open>
  A 64-bit integer of numpy or pandas is the mathematical integer it stands for.
  numpy adds such integers modulo \<open>2 ^ 64\<close>; converting a Python integer outside the
  range raises \<open>OverflowError\<close>.
\<close>

definition int64_ok :: "int \<Rightarrow> bool" where
  "int64_ok i = (- (2 ^ 63) \<le> i \<and> i < 2 ^ 63)"

definition wrap64 :: "int \<Rightarrow> int" where
  "wrap64 i = (i + 2 ^ 63) mod 2 ^ 64 - 2 ^ 63"

text \<open>
  \<open>open(name, 'r')\<close> followed by \<open>readlines()\<close>.  Python 3 opens a text file with
  universal newlines: on input \<open>\r\n\<close> and a lone \<open>\r\<close> are translated to \<open>\n\<close>, and the
  text is then cut after every \<open>\n\<close>, each line keeping its \<open>\n\<close>.  The argument is the
  decoded text of the file.  The flag of \<open>translate_newlines\<close> tells whether the
  character before was \<open>\r\<close>.
\<close>

definition CR :: char where
  "CR = CHR 0x0D"

definition LF :: char where
  "LF = CHR 0x0A"

fun translate_newlines :: "bool \<Rightarrow> string \<Rightarrow> string" where
  "translate_newlines after_cr [] = []"
| "translate_newlines after_cr (c # s) =
     (if c = CR then LF # translate_newlines True s
      else if c = LF \<and> after_cr then translate_newlines False s
      else c # translate_newlines False s)"

fun lines_from :: "string \<Rightarrow> string \<Rightarrow> string list" where
  "lines_from cur [] = (if cur = [] then [] else [rev cur])"
| "lines_from cur (c # s) =
     (if c = LF then rev (c # cur) # lines_from [] s else lines_from (c # cur) s)"

definition readlines :: "string \<Rightarrow> string list" where
  "readlines text_in = lines_from [] (translate_newlines False text_in)"
section \<open>\<open>wind_regression\<close> (misc.py)\<close>

text \<open>
  The input dataframe \<open>wdf\<close>: its row index carries the level \<open>LOS ID\<close>, and every
  column (a range bin) has a label and one measurement per row.
\<close>

record 'c wdf =
  los_id :: "int list"
  columns :: "('c \<times> fl list) list"

text \<open>
  The geometry of lines 204-211: azimuth \<open>los * pi / 2\<close>, elevation \<open>pi * 75 / 180\<close>
  except \<open>pi / 2\<close> where the LOS ID is 4.  The trigonometric values only travel into
  the least-squares solver; they are written over the reals.
\<close>

definition az_of :: "int \<Rightarrow> real" where
  "az_of l = real_of_int l * pi / 2"

definition el_of :: "int \<Rightarrow> real" where
  "el_of l = (if l = 4 then pi / 2 else pi * 75 / 180)"

definition xmat_of :: "int list \<Rightarrow> (real \<times> real \<times> real) list" where
  "xmat_of los =
     map (\<lambda>l. (sin (az_of l) * cos (el_of l), cos (az_of l) * cos (el_of l), sin (el_of l))) los"

text \<open>\<open>Index.unique()\<close>: the distinct values, in order of first appearance.\<close>

fun unique :: "'a list \<Rightarrow> 'a list" where
  "unique [] = []"
| "unique (v # vs) = v # unique (filter (\<lambda>w. w \<noteq> v) vs)"

text \<open>Boolean-mask selection \<open>xs[mask]\<close> and masked assignment \<open>xs[mask] = v\<close>.\<close>

definition select_mask :: "'a list \<Rightarrow> bool list \<Rightarrow> 'a list" where
  "select_mask xs msk = map fst (filter snd (zip xs msk))"

definition assign_mask :: "'a list \<Rightarrow> bool list \<Rightarrow> 'a \<Rightarrow> 'a list" where
  "assign_mask xs msk v = map (\<lambda>(a, m). if m then v else a) (zip xs msk)"

text \<open>
  The statsmodels solver \<open>sm.OLS(ymat, xmat, missing='drop').fit()\<close> is a library
  routine; the model takes it as the parameter \<open>ols\<close>, which returns
  \<open>(results.params, results.bse)\<close>.
\<close>

type_synonym ols_solver = "fl list \<Rightarrow> (real \<times> real \<times> real) list \<Rightarrow> fl list \<times> fl list"

text \<open>
  The test of lines 220-228: \<open>True\<close> when the loop body executes \<open>continue\<close>.
\<close>

definition skip_column :: "int list \<Rightarrow> fl list \<Rightarrow> bool" where
  "skip_column los ymat =
     (let notnan = map (\<lambda>v. \<not> isnan v) ymat;
          uniq_los = unique (select_mask los notnan);
          n_uniq_los = length uniq_los
      in if n_uniq_los < 3 then True
         else if n_uniq_los = 3 then
           (0 \<notin> set uniq_los \<and> 2 \<notin> set uniq_los) \<or> (1 \<notin> set uniq_los \<and> 3 \<notin> set uniq_los)
         else False)"

text \<open>
  Lines 231-240: the fit, the standard-error gate, and the row \<open>df_data\<close>.  The
  standard errors are read before the coefficients are overwritten, and the second
  \<open>results.bse\<close> of line 240 is the same array: only \<open>coefs\<close> changes.
\<close>

definition fit_row :: "ols_solver \<Rightarrow> (real \<times> real \<times> real) list \<Rightarrow> fl \<Rightarrow> fl list \<Rightarrow> fl list" where
  "fit_row ols xmat max_se ymat =
     (let results = ols ymat xmat;
          coefs = fst results;
          se = snd results;
          msk = map (\<lambda>s. fl_gt s max_se \<or> \<not> isfinite s) se;
          coefs' = assign_mask coefs msk NaN
      in coefs' @ snd results)"

text \<open>
  The result frame: one row per column label, in the order of \<open>wdf.columns\<close>.  A row
  is \<open>None\<close> as long as nothing was assigned to it (pandas shows such a row as
  missing in all six fields \<open>x, y, z, xse, yse, zse\<close>), and \<open>Some df_data\<close> afterwards.
  The assignment \<open>resultsdf.loc[label, :] = df_data\<close> is by label: it writes every row
  that carries the label.
\<close>

type_synonym 'c resultsdf = "('c \<times> fl list option) list"

definition loc_set :: "'c \<Rightarrow> fl list \<Rightarrow> 'c resultsdf \<Rightarrow> 'c resultsdf" where
  "loc_set label df_data res =
     map (\<lambda>(c, r). if c = label then (c, Some df_data) else (c, r)) res"

fun regress_loop ::
  "ols_solver \<Rightarrow> int list \<Rightarrow> (real \<times> real \<times> real) list \<Rightarrow> fl \<Rightarrow>
     ('c \<times> fl list) list \<Rightarrow> 'c resultsdf \<Rightarrow> 'c resultsdf" where
  "regress_loop ols los xmat max_se [] res = res"
| "regress_loop ols los xmat max_se ((c, col) # cols) res =
     (let ymat = map fl_neg col
      in if skip_column los ymat then regress_loop ols los xmat max_se cols res
         else regress_loop ols los xmat max_se cols
                (loc_set c (fit_row ols xmat max_se ymat) res))"

definition wind_regression :: "ols_solver \<Rightarrow> 'c wdf \<Rightarrow> fl \<Rightarrow> fl \<Rightarrow> 'c resultsdf" where
  "wind_regression ols wdf elevation max_se =
     (let colnames = map fst (columns wdf);
          los = los_id wdf;
          xmat = xmat_of los;
          resultsdf = map (\<lambda>c. (c, None)) colnames
      in regress_loop ols los xmat max_se (columns wdf) resultsdf)"

text \<open>
  The vocabulary of the specification for one range bin: the LOS IDs that have a
  non-NaN measurement in the column, and the sets of LOS IDs the regression refuses
  (fewer than three, or three without one of the opposite pairs 0/2 and 1/3).
\<close>

definition measured_los :: "int list \<Rightarrow> fl list \<Rightarrow> int set" where
  "measured_los los col = set (map fst (filter (\<lambda>p. \<not> isnan (snd p)) (zip los col)))"

definition degenerate :: "int set \<Rightarrow> bool" where
  "degenerate S =
     (card S < 3 \<or> (card S = 3 \<and> ((0 \<notin> S \<and> 2 \<notin> S) \<or> (1 \<notin> S \<and> 3 \<notin> S))))"

section \<open>\<open>weather_balloon\<close> (misc.py)\<close>

text \<open>
  What \<open>weather_balloon\<close> takes from its libraries and from the file system.
  \<open>file_text\<close> is the decoded text of a file, as stored, or the error of \<open>open\<close>.  A
  \<open>Timestamp\<close> object is a value of the type \<open>'t\<close>; a value of the \<open>datetime64[ns]\<close>
  column is its count of nanoseconds; a row of the table read by pandas is the text of
  its \<open>Time Stamp\<close> field, its \<open>Elapsed Time\<close> and the remaining fields \<open>'r\<close>.
\<close>

record ('t, 'r) balloon_env =
  file_text :: "string \<Rightarrow> py_error + string"
  read_csv :: "string \<Rightarrow> nat \<Rightarrow> py_error + (string \<times> fl \<times> 'r) list"
  to_datetime :: "string \<Rightarrow> py_error + 't"
  replace_date :: "'t \<Rightarrow> 't \<Rightarrow> 't"
  date_str :: "'t \<Rightarrow> string"
  to_datetime_format :: "string \<Rightarrow> py_error + int"

text \<open>
  The dataset that \<open>weather_balloon\<close> returns: the time index, the rows of the table
  and the station and profile coordinates taken from the header.  The reshaping calls
  of xarray (\<open>expand_dims\<close>, \<open>set_coords\<close>) are not part of the model.
\<close>

record ('t, 'r) balloon_dataset =
  time_stamp :: "int list"
  data_vars :: "(fl \<times> 'r) list"
  station :: string
  station_height :: string
  station_latitude :: string
  station_longitude :: string
  profile :: 't
  flight :: string
  file_name :: string
  observer_initial :: string
  version :: string

definition CRLF :: string where
  "CRLF = [CHR 0x0D, CHR 0x0A]"

definition data_path :: string where
  "data_path = ''../data/balloon/FLT_010117_0000_PROC.txt.TXT''"

definition ns_per_day :: int where
  "ns_per_day = 86400 * 1000000000"

text \<open>\<open>np.where(flags)[0][0]\<close>: the position of the first true flag.\<close>

fun first_true :: "bool list \<Rightarrow> nat option" where
  "first_true [] = None"
| "first_true (b # bs) = (if b then Some 0 else map_option Suc (first_true bs))"

text \<open>Lines 299-304: the loop that fills the \<open>metadata\<close> dictionary.\<close>

fun metadata_loop :: "string list \<Rightarrow> (string \<rightharpoonup> string) \<Rightarrow> py_error + (string \<rightharpoonup> string)" where
  "metadata_loop [] metadata = Inr metadata"
| "metadata_loop (line # rest) metadata =
     (let parts = split line '' : '';
          key = strip (parts ! 0)
      in if length parts < 2 then Inl IndexError
         else metadata_loop rest (metadata(key \<mapsto> parts ! 1)))"

text \<open>Lines 296-304: the header of the file, as its length and its dictionary.\<close>

definition read_header :: "string list \<Rightarrow> py_error + nat \<times> (string \<rightharpoonup> string)" where
  "read_header lines =
     (case first_true (map (\<lambda>line. line = CRLF) lines) of
        None \<Rightarrow> Inl IndexError
      | Some header_end \<Rightarrow>
          (case metadata_loop (map strip (take header_end lines)) Map.empty of
             Inl e \<Rightarrow> Inl e
           | Inr metadata \<Rightarrow> Inr (header_end, metadata)))"

text \<open>\<open>metadata['Flight'].split(', ')[i]\<close>, read as a date.\<close>

definition flight_field :: "('t, 'r) balloon_env \<Rightarrow> (string \<rightharpoonup> string) \<Rightarrow> nat \<Rightarrow> py_error + 't" where
  "flight_field env metadata i =
     (case getitem metadata ''Flight'' of
        Inl e \<Rightarrow> Inl e
      | Inr fl_text \<Rightarrow>
          (case list_getitem (split fl_text '', '') i of
             Inl e \<Rightarrow> Inl e
           | Inr field \<Rightarrow> to_datetime env field))"

text \<open>\<open>np.cumsum\<close> of a Boolean array counts the true flags so far.\<close>

fun cumsum_from :: "int \<Rightarrow> bool list \<Rightarrow> int list" where
  "cumsum_from acc [] = []"
| "cumsum_from acc (b # bs) = (acc + (if b then 1 else 0)) # cumsum_from (acc + (if b then 1 else 0)) bs"

definition cumsum :: "bool list \<Rightarrow> int list" where
  "cumsum bs = cumsum_from 0 bs"

text \<open>
  Float subtraction and \<open>a >= b\<close>.  The difference of two finite floats is only tested
  for its sign, which rounding does not change, so it is written exactly.
\<close>

fun fl_sub :: "fl \<Rightarrow> fl \<Rightarrow> fl" where
  "fl_sub (Fin a) (Fin b) = Fin (a - b)"
| "fl_sub NaN _ = NaN"
| "fl_sub _ NaN = NaN"
| "fl_sub PInf PInf = NaN"
| "fl_sub NInf NInf = NaN"
| "fl_sub PInf _ = PInf"
| "fl_sub NInf _ = NInf"
| "fl_sub _ PInf = NInf"
| "fl_sub _ NInf = PInf"

fun fl_ge :: "fl \<Rightarrow> fl \<Rightarrow> bool" where
  "fl_ge NaN _ = False"
| "fl_ge _ NaN = False"
| "fl_ge PInf _ = True"
| "fl_ge _ NInf = True"
| "fl_ge NInf _ = False"
| "fl_ge _ PInf = False"
| "fl_ge (Fin a) (Fin b) = (a \<ge> b)"

text \<open>
  Line 315: a time that \<open>datetime64[ns]\<close> cannot hold is refused by pandas with an
  \<open>OutOfBoundsDatetime\<close>, which is a \<open>ValueError\<close>.
\<close>

definition parse_stamp :: "('t, 'r) balloon_env \<Rightarrow> string \<Rightarrow> py_error + int" where
  "parse_stamp env s =
     (case to_datetime_format env s of
        Inl e \<Rightarrow> Inl e
      | Inr v \<Rightarrow> if - (2 ^ 63) < v \<and> v < 2 ^ 63 then Inr v else Inl ValueError)"

text \<open>
  Lines 318-323: the day-rollover correction of the parsed \<open>Time Stamp\<close> column against
  the \<open>Elapsed Time\<close> column.  numpy subtracts the time stamps in 64 bits.  The column
  of days has one entry even for an empty table, whose update then raises
  \<open>ValueError\<close>; pandas raises \<open>OverflowError\<close> when a shifted time stamp leaves the
  64-bit range.
\<close>

definition correct_rollover :: "int list \<Rightarrow> fl list \<Rightarrow> py_error + int list" where
  "correct_rollover stamps elapsed =
     (let time_lower = map (\<lambda>(b, a). wrap64 (b - a) < 0) (zip (tl stamps) (butlast stamps));
          elapsed_time = map (\<lambda>(b, a). fl_ge (fl_sub b a) (Fin 0)) (zip (tl elapsed) (butlast elapsed));
          days_ahead = cumsum (map (\<lambda>(p, q). p \<and> q) (zip time_lower elapsed_time));
          days_ahead = 0 # days_ahead;
          shifted = map (\<lambda>(t, d). t + d * ns_per_day) (zip stamps days_ahead)
      in if length days_ahead \<noteq> length stamps then Inl ValueError
         else if list_all int64_ok shifted then Inr shifted
         else Inl OverflowError)"

text \<open>
  Lines 292-323: everything up to the corrected \<open>Time Stamp\<close> column.  The header comes
  from \<open>fname\<close>; the table is read from \<open>data_path\<close>.
\<close>

definition read_balloon ::
  "('t, 'r) balloon_env \<Rightarrow> string \<Rightarrow>
     py_error + (string \<rightharpoonup> string) \<times> 't \<times> int list \<times> (fl \<times> 'r) list" where
  "read_balloon env fname =
     (case file_text env fname of
        Inl e \<Rightarrow> Inl e
      | Inr fo \<Rightarrow>
     (case read_header (readlines fo) of
        Inl e \<Rightarrow> Inl e
      | Inr (header_end, metadata) \<Rightarrow>
     (case flight_field env metadata 1 of
        Inl e \<Rightarrow> Inl e
      | Inr bdate \<Rightarrow>
     (case flight_field env metadata 2 of
        Inl e \<Rightarrow> Inl e
      | Inr btime \<Rightarrow>
     (case read_csv env data_path (header_end + 1) of
        Inl e \<Rightarrow> Inl e
      | Inr b1 \<Rightarrow>
     (case map_result (\<lambda>row. parse_stamp env (date_str env bdate @ '' '' @ fst row)) b1 of
        Inl e \<Rightarrow> Inl e
      | Inr stamps \<Rightarrow>
     (case correct_rollover stamps (map (\<lambda>row. fst (snd row)) b1) of
        Inl e \<Rightarrow> Inl e
      | Inr index \<Rightarrow>
          Inr (metadata, replace_date env btime bdate, index, map snd b1))))))))"

definition weather_balloon ::
  "('t, 'r) balloon_env \<Rightarrow> string \<Rightarrow> py_error + ('t, 'r) balloon_dataset" where
  "weather_balloon env fname =
     (case read_balloon env fname of
        Inl e \<Rightarrow> Inl e
      | Inr (metadata, bstart, index, b1) \<Rightarrow>
     (case getitem metadata ''Station Name (WMO #)'' of Inl e \<Rightarrow> Inl e | Inr v_station \<Rightarrow>
     (case getitem metadata ''Station Height'' of Inl e \<Rightarrow> Inl e | Inr v_height \<Rightarrow>
     (case getitem metadata ''Station Latitude'' of Inl e \<Rightarrow> Inl e | Inr v_latitude \<Rightarrow>
     (case getitem metadata ''Station Longitude'' of Inl e \<Rightarrow> Inl e | Inr v_longitude \<Rightarrow>
     (case getitem metadata ''Flight'' of Inl e \<Rightarrow> Inl e | Inr v_flight \<Rightarrow>
     (case getitem metadata ''File Name'' of Inl e \<Rightarrow> Inl e | Inr v_file \<Rightarrow>
     (case getitem metadata ''Observer Initial'' of Inl e \<Rightarrow> Inl e | Inr v_observer \<Rightarrow>
     (case getitem metadata ''Version #'' of Inl e \<Rightarrow> Inl e | Inr v_version \<Rightarrow>
        Inr \<lparr>time_stamp = index,
             data_vars = b1,
             station = v_station,
             station_height = v_height,
             station_latitude = v_latitude,
             station_longitude = v_longitude,
             profile = bstart,
             flight = v_flight,
             file_name = v_file,
             observer_initial = v_observer,
             version = v_version\<rparr>)))))))))"

text \<open>
  A balloon file as the sounding software stores it: eight header lines, a blank line
  and the table, every line ended by \<open>\r\n\<close>.
\<close>

definition sample_balloon_text :: string where
  "sample_balloon_text =
     ''Station Name (WMO #) : ALB (72518)'' @ CRLF @
     ''Station Height  : 95 m'' @ CRLF @
     ''Station Latitude : 42.69'' @ CRLF @
     ''Station Longitude : -73.83'' @ CRLF @
     ''Flight : 1, 01/01/17, 00:00:05'' @ CRLF @
     ''File Name : FLT_010117_0000'' @ CRLF @
     ''Observer Initial : ab'' @ CRLF @
     ''Version # : 2.3'' @ CRLF @
     CRLF @
     ''Time Stamp;Elapsed Time'' @ CRLF @
     ''00:00:05;0'' @ CRLF"

section \<open>\<open>mwr_from_csv\<close>, lines 122-145 (misc.py)\<close>

text \<open>
  What the loop takes from its libraries.  \<open>read_csv_text\<close> is \<open>pd.read_csv\<close> on the
  joined lines.  The type codes are Python integers of any size, the array
  \<open>acceptable_types\<close> is an \<open>int64\<close> array.  How numpy treats a Python integer outside
  the 64-bit range depends on its version: \<open>wide_in_array x a\<close> is its answer to
  \<open>x in a\<close> for such an \<open>x\<close>, and \<open>wide_add_error\<close> is the exception it raises when such
  an integer is added to the array.
\<close>

record 'df mwr_env =
  read_csv_text :: "string \<Rightarrow> py_error + 'df"
  wide_in_array :: "int \<Rightarrow> int list \<Rightarrow> bool"
  wide_add_error :: py_error

text \<open>
  \<open>re.sub("^[^,]*,[^,]*,", "", line)\<close>: when the line has two commas, everything up to
  and including the second one goes; otherwise the line stays as it is.
\<close>

definition sub_two_fields :: "string \<Rightarrow> string" where
  "sub_two_fields line =
     (let rest1 = dropWhile (\<lambda>c. c \<noteq> CHR '','') line in
      if rest1 = [] then line
      else (let rest2 = dropWhile (\<lambda>c. c \<noteq> CHR '','') (tl rest1) in
            if rest2 = [] then line else tl rest2))"

text \<open>
  \<open>re.sub(",.*", "", s)\<close>: every comma goes together with what follows it up to, and
  not including, the next newline.  The flag says whether a match is being consumed.
\<close>

fun sub_comma_rest :: "bool \<Rightarrow> string \<Rightarrow> string" where
  "sub_comma_rest inside [] = []"
| "sub_comma_rest inside (c # s) =
     (if inside then (if c = CHR 0x0A then c # sub_comma_rest False s else sub_comma_rest True s)
      else (if c = CHR '','' then sub_comma_rest True s else c # sub_comma_rest False s))"

definition line_type :: "string \<Rightarrow> py_error + int" where
  "line_type line = py_int (sub_comma_rest False (sub_two_fields line))"

text \<open>\<open>re.search("^Record", line)\<close> finds a match when the line begins with \<open>Record\<close>.\<close>

definition is_record :: "string \<Rightarrow> bool" where
  "is_record line = (take 6 line = ''Record'')"

text \<open>
  Lines 133-136 for a header of type code \<open>t\<close>: the positions of the lines to collect.
  The addition at line 134 is done in 64 bits and wraps around.
\<close>

definition where_is_type :: "'df mwr_env \<Rightarrow> int list \<Rightarrow> int \<Rightarrow> nat list" where
  "where_is_type env types t =
     (let acceptable_types = map (\<lambda>k. wrap64 (k + t)) [1, 2, 3, 4];
          is_type = map (\<lambda>m. if int64_ok (types ! m) then types ! m \<in> set acceptable_types
                               else wide_in_array env (types ! m) acceptable_types)
                      [0..<length types]
      in filter (\<lambda>m. is_type ! m) [0..<length is_type])"

text \<open>The loop of lines 132-145 over the positions of the header lines.\<close>

fun csv_loop ::
  "'df mwr_env \<Rightarrow> string list \<Rightarrow> int list \<Rightarrow> nat list \<Rightarrow>
     (string \<rightharpoonup> 'df) \<Rightarrow> py_error + (string \<rightharpoonup> 'df)" where
  "csv_loop env lines types [] csvs = Inr csvs"
| "csv_loop env lines types (n # headers) csvs =
     (if \<not> int64_ok (types ! n) then Inl (wide_add_error env)
      else (let where_is_type = where_is_type env types (types ! n)
            in if length where_is_type > 0
               then (let csv_lines = lines ! n # map (\<lambda>m. lines ! m) where_is_type;
                         csv_string = concat csv_lines
                     in case read_csv_text env csv_string of
                          Inl e \<Rightarrow> Inl e
                        | Inr df \<Rightarrow>
                            csv_loop env lines types headers (csvs(str_int (types ! n) \<mapsto> df)))
               else csv_loop env lines types headers csvs))"

text \<open>
  Lines 122-145: the dictionary \<open>csvs\<close>, from the decoded text \<open>fo\<close> of the file.
  \<open>np.nditer\<close> refuses an empty array of header positions.
\<close>

definition mwr_csvs :: "'df mwr_env \<Rightarrow> string \<Rightarrow> py_error + (string \<rightharpoonup> 'df)" where
  "mwr_csvs env fo =
     (let lines = readlines fo
      in case map_result line_type lines of
           Inl e \<Rightarrow> Inl e
         | Inr types \<Rightarrow>
             (let headers = filter (\<lambda>n. is_record (lines ! n)) [0..<length lines]
              in if headers = [] then Inl ValueError
                 else csv_loop env lines types headers Map.empty))"

text \<open>
  The dictionary as it stands when the loop has worked through the header lines up to
  and including line \<open>n\<close>.
\<close>

definition csvs_after :: "'df mwr_env \<Rightarrow> string \<Rightarrow> nat \<Rightarrow> py_error + (string \<rightharpoonup> 'df)" where
  "csvs_after env fo n =
     (let lines = readlines fo
      in case map_result line_type lines of
           Inl e \<Rightarrow> Inl e
         | Inr types \<Rightarrow>
             csv_loop env lines types (filter (\<lambda>m. is_record (lines ! m)) [0..<Suc n]) Map.empty)"

text \<open>
  The vocabulary of the specification.  The fields of a line are the texts between its
  commas; its type code is the integer that its third field holds; \<open>matching_lines\<close>
  are the lines whose type code lies in \<open>{t + 1, ..., t + 4}\<close>, in file order.
\<close>

fun fields_from :: "string \<Rightarrow> string \<Rightarrow> string list" where
  "fields_from cur [] = [rev cur]"
| "fields_from cur (c # s) =
     (if c = CHR '','' then rev cur # fields_from [] s else fields_from (c # cur) s)"

definition comma_fields :: "string \<Rightarrow> string list" where
  "comma_fields line = fields_from [] line"

definition type_code :: "string \<Rightarrow> py_error + int" where
  "type_code line =
     (case list_getitem (comma_fields line) 2 of Inl e \<Rightarrow> Inl e | Inr field \<Rightarrow> py_int field)"

definition matching_lines :: "string list \<Rightarrow> int \<Rightarrow> string list" where
  "matching_lines lines t =
     filter (\<lambda>line. type_code line \<in> {Inr (t + 1), Inr (t + 2), Inr (t + 3), Inr (t + 4)}) lines"

text \<open>
  A sample file, and a file whose header has the type code \<open>2 ^ 63 - 2\<close>; a numpy
  that finds no integer outside the 64-bit range in an array, with a reader that
  returns the text it is given.
\<close>

definition sample_mwr :: string where
  "sample_mwr =
     ''Record,Date/Time,400,LV2 Processor,0.00,0.10\<newline>'' @
     ''1,01/01/17 00:00:05,401,Zenith,280.1,279.5\<newline>'' @
     ''Record,Date/Time,100,Title\<newline>'' @
     ''2,01/01/17 00:00:06,402,Zenith,279.9,279.1\<newline>'' @
     ''3,01/01/17 00:00:07,101,Temperature (K)\<newline>''"

definition wrapping_mwr :: string where
  "wrapping_mwr =
     ''Record,Date/Time,9223372036854775806,Title\<newline>'' @
     ''1,01/01/17 00:00:05,-9223372036854775808,Zenith\<newline>''"

definition sample_mwr_env :: "string mwr_env" where
  "sample_mwr_env =
     \<lparr>read_csv_text = Inr, wide_in_array = (\<lambda>x a. False), wide_add_error = OverflowError\<rparr>"

section \<open>\<open>decode_rrs\<close> (wxprofilers/rrs.py)\<close>

text \<open>
  The native decoder \<open>rrs_.rrs_decoder\<close> is external.  A run of \<open>decode_rrs\<close> is
  described by the calls it makes to the decoder, each with its three arguments.
  \<open>str(Path(outdir))\<close> is pathlib's rendering of the path, the parameter \<open>path_str\<close>.
\<close>

type_synonym decoder_call = "string \<times> string \<times> string"

definition decode_rrs :: "(string \<Rightarrow> string) \<Rightarrow> string \<Rightarrow> string \<Rightarrow> string \<Rightarrow> decoder_call list" where
  "decode_rrs path_str bufrin outputs outdir =
     (let out = path_str outdir @ ''/''
      in [(bufrin, outputs, out)])"

section \<open>\<open>lidar_from_csv\<close> (misc.py), called with a lidar CSV only\<close>

text \<open>
  The frame that \<open>pd.read_csv(rws)\<close> returns.  Every row has its \<open>Timestamp\<close> text, its
  \<open>Range [m]\<close>, the four profile fields (\<open>LOS ID\<close>, \<open>Configuration ID\<close>, azimuth and
  elevation, kept together as \<open>'p\<close>) and one value for each remaining column, looked up
  by the column's name.
\<close>

record 'p lidar_row =
  r_timestamp :: string
  r_range :: real
  r_profile :: 'p
  r_values :: "string \<Rightarrow> fl"

record 'p lidar_csv =
  value_columns :: "string list"
  csv_rows :: "'p lidar_row list"

text \<open>
  \<open>DataFrame.pivot(index, columns)\<close> is pandas'; it is written here from its documented
  behaviour.  The new index and the new columns are the distinct values of the two
  key columns in ascending order, the cell of an index value and a column value holds
  the remaining fields of the row with these two keys and is missing when there is no
  such row, and two rows with the same pair of keys make pandas raise \<open>ValueError\<close>.
\<close>

definition pivot ::
  "('i::linorder \<times> 'c::linorder \<times> 'v) list \<Rightarrow> py_error + 'i list \<times> 'c list \<times> 'v option list list" where
  "pivot frame =
     (if \<not> distinct (map (\<lambda>(i, c, v). (i, c)) frame) then Inl ValueError
      else (let index = sort (remdups (map (\<lambda>(i, c, v). i) frame));
                cols = sort (remdups (map (\<lambda>(i, c, v). c) frame));
                cell = map_of (map (\<lambda>(i, c, v). ((i, c), v)) frame)
            in Inr (index, cols, map (\<lambda>i. map (\<lambda>c. cell (i, c)) cols) index)))"

text \<open>\<open>data[level]\<close>: one value column of the pivoted frame, a missing cell being NaN.\<close>

definition level_grid :: "(string \<Rightarrow> fl) option list list \<Rightarrow> string \<Rightarrow> fl list list" where
  "level_grid grid level =
     map (map (\<lambda>cell. case cell of None \<Rightarrow> NaN | Some vals \<Rightarrow> vals level)) grid"

text \<open>\<open>groupby('Timestamp').agg(lambda x: x.iloc[0])\<close>: the first row of each time stamp.\<close>

definition first_profile :: "'p lidar_row list \<Rightarrow> string \<Rightarrow> 'p option" where
  "first_profile rows t = map_option r_profile (find (\<lambda>row. r_timestamp row = t) rows)"

text \<open>The names of lines 23 and 58-59, 74-85: the measurement columns and their new names.\<close>

definition measurement_names :: "string list" where
  "measurement_names =
     [''RWS [m/s]'', ''DRWS [m/s]'', ''CNR [db]'', ''Confidence Index [%]'', ''Mean Error'', ''Status'']"

definition renamed :: "string \<Rightarrow> string" where
  "renamed name =
     (if name = ''RWS [m/s]'' then ''RWS''
      else if name = ''DRWS [m/s]'' then ''DRWS''
      else if name = ''CNR [db]'' then ''CNR''
      else if name = ''Confidence Index [%]'' then ''Confidence''
      else if name = ''Mean Error'' then ''Error''
      else name)"

text \<open>\<open>astype(bool)\<close> on a float: zero is false, everything else, NaN included, is true.\<close>

definition as_bool :: "fl \<Rightarrow> fl" where
  "as_bool v = (if v = Fin 0 then Fin 0 else Fin 1)"

record ('t, 'p) lidar_dataset =
  ds_time :: "'t list"
  ds_range :: "real list"
  ds_profiles :: "'p option list"
  ds_vars :: "string \<rightharpoonup> fl list list"

text \<open>
  Lines 14-85 and 113-117 with \<open>scans\<close>, \<open>wind\<close> and \<open>attrs\<close> left at \<open>None\<close>.  The parser
  \<open>pd.to_datetime\<close> is the parameter \<open>to_dt\<close>.  The attributes (units and long names)
  are not part of the model.  The pivot of a CSV without data rows has no column, so
  that \<open>data[level]\<close> at line 55 raises \<open>KeyError\<close>.  \<open>Dataset.rename\<close> and the attribute
  assignments need the variables \<open>RWS\<close>, \<open>DRWS\<close> and \<open>CNR\<close>; a CSV without one of them
  makes them raise.
\<close>

definition lidar_from_csv ::
  "(string \<Rightarrow> py_error + 't) \<Rightarrow> 'p lidar_csv \<Rightarrow> py_error + ('t, 'p) lidar_dataset" where
  "lidar_from_csv to_dt csv =
     (case pivot (map (\<lambda>row. (r_timestamp row, r_range row, r_values row)) (csv_rows csv)) of
        Inl e \<Rightarrow> Inl e
      | Inr (index, cols, data) \<Rightarrow>
     (case map_result to_dt index of
        Inl e \<Rightarrow> Inl e
      | Inr time_values \<Rightarrow>
          (let measurement_vars = filter (\<lambda>name. name \<in> set (value_columns csv)) measurement_names;
               h1 = map_of (map (\<lambda>level. (level, level_grid data level)) measurement_vars)
           in if csv_rows csv = [] \<and> measurement_vars \<noteq> [] then Inl KeyError
              else if \<not> set [''RWS [m/s]'', ''DRWS [m/s]'', ''CNR [db]''] \<subseteq> set (value_columns csv)
              then Inl ValueError
              else Inr \<lparr>ds_time = time_values,
                        ds_range = cols,
                        ds_profiles = map (first_profile (csv_rows csv)) index,
                        ds_vars = (\<lambda>name.
                          if name = ''Status'' then map_option (map (map as_bool)) (h1 ''Status'')
                          else (case filter (\<lambda>level. renamed level = name) measurement_vars of
                                  [] \<Rightarrow> None
                                | level # _ \<Rightarrow> h1 level))\<rparr>)))"

text \<open>A sample lidar CSV: two time stamps, two ranges, three rows.\<close>

definition sample_lidar :: "unit lidar_csv" where
  "sample_lidar =
     \<lparr>value_columns = [''RWS [m/s]'', ''DRWS [m/s]'', ''CNR [db]''],
      csv_rows =
        [\<lparr>r_timestamp = ''2017-01-01 00:00:02'', r_range = 100, r_profile = (),
          r_values = (\<lambda>name. if name = ''RWS [m/s]'' then Fin 3 else Fin 0)\<rparr>,
         \<lparr>r_timestamp = ''2017-01-01 00:00:01'', r_range = 200, r_profile = (),
          r_values = (\<lambda>name. if name = ''RWS [m/s]'' then Fin 2 else Fin 0)\<rparr>,
         \<lparr>r_timestamp = ''2017-01-01 00:00:01'', r_range = 100, r_profile = (),
          r_values = (\<lambda>name. if name = ''RWS [m/s]'' then Fin 1 else Fin 0)\<rparr>]\<rparr>"

text \<open>
  The wind branch, lines 104-109.  The array \<open>Windspeed\<close> is created with the
  dimensions \<open>wspeed_dims\<close>, the time dimension carrying the name \<open>Time\<close> it has
  after the renaming of line 58.  Each of the three assignments addresses the array
  with a dictionary from dimension names to positions: one component, the positions
  \<open>col_indices\<close> and the positions \<open>row_indices\<close>.
\<close>

datatype indexer = Position nat | Positions "nat list"

definition wspeed_dims :: "string list" where
  "wspeed_dims = [''Component'', ''Time'', ''Range'']"

definition windspeed_key :: "nat \<Rightarrow> nat list \<Rightarrow> nat list \<Rightarrow> (string \<times> indexer) list" where
  "windspeed_key component col_indices row_indices =
     [(''Component'', Position component),
      (''Range'', Positions col_indices),
      (''Timestamp'', Positions row_indices)]"

section \<open>Lines read from a text file\<close>

lemma translate_newlines_no_CR: "CR \<notin> set (translate_newlines after_cr s)"
  by (induction s arbitrary: after_cr) (simp_all add: CR_def LF_def)

lemma lines_from_chars: "l \<in> set (lines_from cur s) \<Longrightarrow> set l \<subseteq> set cur \<union> set s"
proof (induction s arbitrary: cur)
  case Nil
  then show ?case by (simp split: if_splits)
next
  case (Cons c s)
  show ?case
  proof (cases "c = LF")
    case True
    with Cons.prems have "l = rev (c # cur) \<or> l \<in> set (lines_from [] s)" by simp
    then show ?thesis
    proof
      assume "l = rev (c # cur)"
      then show ?thesis by auto
    next
      assume "l \<in> set (lines_from [] s)"
      from Cons.IH[OF this] show ?thesis by auto
    qed
  next
    case False
    with Cons.prems have "l \<in> set (lines_from (c # cur) s)" by simp
    from Cons.IH[OF this] show ?thesis by auto
  qed
qed

lemma lines_from_shape:
  "l \<in> set (lines_from cur s) \<Longrightarrow> LF \<notin> set cur \<Longrightarrow> l \<noteq> [] \<and> LF \<notin> set (butlast l)"
proof (induction s arbitrary: cur)
  case Nil
  then show ?case by (auto split: if_splits dest: list.set_sel(2))
next
  case (Cons c s)
  show ?case
  proof (cases "c = LF")
    case True
    with Cons.prems(1) have "l = rev cur @ [c] \<or> l \<in> set (lines_from [] s)" by simp
    then show ?thesis
    proof
      assume "l = rev cur @ [c]"
      then show ?thesis using Cons.prems(2) by simp
    next
      assume "l \<in> set (lines_from [] s)"
      then show ?thesis using Cons.IH[of "[]"] by simp
    qed
  next
    case False
    with Cons.prems(1) have "l \<in> set (lines_from (c # cur) s)" by simp
    then show ?thesis using Cons.IH[of "c # cur"] Cons.prems(2) False by auto
  qed
qed

lemma readlines_no_CR: "l \<in> set (readlines s) \<Longrightarrow> CR \<notin> set l"
  using lines_from_chars[of l "[]" "translate_newlines False s"] translate_newlines_no_CR[of False s]
  by (auto simp: readlines_def)

lemma readlines_shape: "l \<in> set (readlines s) \<Longrightarrow> l \<noteq> [] \<and> LF \<notin> set (butlast l)"
  using lines_from_shape[of l "[]" "translate_newlines False s"] by (simp add: readlines_def)

section \<open>Verification of \<open>wind_regression\<close>\<close>

lemma set_unique: "set (unique xs) = set xs"
  by (induction xs rule: unique.induct) auto

lemma distinct_unique: "distinct (unique xs)"
  by (induction xs rule: unique.induct) (auto simp: set_unique)

lemma length_unique: "length (unique xs) = card (set xs)"
  using distinct_card[OF distinct_unique, of xs] by (simp add: set_unique)

lemma isnan_neg: "isnan (fl_neg v) = isnan v"
  by (cases v) auto

lemma select_mask_map:
  "select_mask xs (map f ys) = map fst (filter (\<lambda>p. f (snd p)) (zip xs ys))"
  unfolding select_mask_def
  by (induction xs ys rule: list_induct2') auto

lemma set_select_mask:
  "set (select_mask los (map (\<lambda>v. \<not> isnan v) (map fl_neg col))) = measured_los los col"
proof -
  have "map (\<lambda>v. \<not> isnan v) (map fl_neg col) = map (\<lambda>v. \<not> isnan v) col"
    by (simp add: isnan_neg)
  then show ?thesis
    by (simp only: select_mask_map measured_los_def)
qed

text \<open>The test the loop runs is the specification's condition on the set of LOS IDs.\<close>

lemma skip_column_iff: "skip_column los (map fl_neg col) = degenerate (measured_los los col)"
proof -
  let ?u = "unique (select_mask los (map (\<lambda>v. \<not> isnan v) (map fl_neg col)))"
  have s: "set ?u = measured_los los col"
    by (simp only: set_unique set_select_mask)
  have l: "length ?u = card (measured_los los col)"
    by (simp only: length_unique set_select_mask)
  show ?thesis
    unfolding skip_column_def Let_def s l degenerate_def by auto
qed

lemma map_of_init:
  "c \<in> set cs \<Longrightarrow> map_of (map (\<lambda>c. (c, None :: fl list option)) cs) c = Some None"
  by (induction cs) auto

lemma map_fst_loc_set: "map fst (loc_set l d res) = map fst res"
  unfolding loc_set_def by (induction res) auto

lemma map_fst_regress_loop: "map fst (regress_loop ols los xmat s cols res) = map fst res"
  by (induction cols arbitrary: res) (auto simp: Let_def map_fst_loc_set)

lemma map_of_loc_set:
  "map_of (loc_set l d res) c =
     (if c = l \<and> c \<in> fst ` set res then Some (Some d) else map_of res c)"
  unfolding loc_set_def by (induction res) force+

lemma regress_loop_other:
  "c \<notin> fst ` set cols \<Longrightarrow> map_of (regress_loop ols los xmat s cols res) c = map_of res c"
  by (induction cols arbitrary: res) (auto simp: Let_def map_of_loc_set)

text \<open>
  With pairwise distinct labels, the row of a label is decided by the one column that
  carries it: the loop leaves the row alone when it skips the column and writes the
  fit otherwise.
\<close>

lemma regress_loop_at:
  "distinct (map fst cols) \<Longrightarrow> (c, col) \<in> set cols \<Longrightarrow> c \<in> fst ` set res \<Longrightarrow>
   map_of (regress_loop ols los xmat s cols res) c =
     (if skip_column los (map fl_neg col) then map_of res c
      else Some (Some (fit_row ols xmat s (map fl_neg col))))"
proof (induction cols arbitrary: res)
  case Nil
  then show ?case by simp
next
  case (Cons a cols)
  obtain c' col' where a: "a = (c', col')" by (cases a)
  show ?case
  proof (cases "c' = c")
    case True
    with Cons.prems a have col: "col' = col" and notin: "c \<notin> fst ` set cols"
      by (auto simp: rev_image_eqI)
    show ?thesis using Cons.prems(3) a True col
      by (simp add: Let_def regress_loop_other[OF notin] map_of_loc_set)
  next
    case False
    with Cons.prems a have mem: "(c, col) \<in> set cols" and d: "distinct (map fst cols)" by auto
    have in1: "c \<in> fst ` set (loc_set c' d' res)" for d'
      using Cons.prems(3) map_fst_loc_set[of c' d' res] by (metis set_map)
    show ?thesis using a False Cons.prems(3)
      by (simp add: Let_def Cons.IH[OF d mem] in1 map_of_loc_set)
  qed
qed

lemma wind_regression_nth:
  assumes "distinct (map fst (columns wdf))" and "n < length (columns wdf)"
  shows "wind_regression ols wdf elevation max_se ! n =
     (fst (columns wdf ! n),
      if skip_column (los_id wdf) (map fl_neg (snd (columns wdf ! n))) then None
      else Some (fit_row ols (xmat_of (los_id wdf)) max_se (map fl_neg (snd (columns wdf ! n)))))"
proof -
  let ?res = "wind_regression ols wdf elevation max_se"
  let ?c = "fst (columns wdf ! n)" and ?col = "snd (columns wdf ! n)"
  let ?init = "map (\<lambda>c. (c, None :: fl list option)) (map fst (columns wdf))"
  have fsts: "map fst ?res = map fst (columns wdf)"
    unfolding wind_regression_def Let_def by (simp add: map_fst_regress_loop comp_def)
  have len: "n < length ?res" using assms(2) fsts by (metis length_map)
  have fstn: "fst (?res ! n) = ?c" using fsts len assms(2) by (metis nth_map)
  have dres: "distinct (map fst ?res)" using fsts assms(1) by simp
  have mem: "(?c, ?col) \<in> set (columns wdf)" using assms(2) by (metis nth_mem prod.collapse)
  have cin: "?c \<in> fst ` set ?init" using mem by (force simp: comp_def)
  have init_none: "map_of ?init ?c = Some None"
    using mem by (intro map_of_init) force
  have "map_of ?res ?c = Some (snd (?res ! n))"
    using dres len fstn by (metis map_of_is_SomeI nth_mem prod.collapse)
  moreover have "map_of ?res ?c =
     (if skip_column (los_id wdf) (map fl_neg ?col) then Some None
      else Some (Some (fit_row ols (xmat_of (los_id wdf)) max_se (map fl_neg ?col))))"
    unfolding wind_regression_def Let_def
    using regress_loop_at[OF assms(1) mem cin] init_none by simp
  ultimately have "snd (?res ! n) = (if skip_column (los_id wdf) (map fl_neg ?col) then None
      else Some (fit_row ols (xmat_of (los_id wdf)) max_se (map fl_neg ?col)))"
    by (simp split: if_splits)
  with fstn show ?thesis by (simp add: prod_eq_iff)
qed

text \<open>
  C1, as amended.  For a dataframe whose column labels are pairwise distinct, the
  result row of column \<open>n\<close> is left unassigned exactly when the non-NaN measurements of
  the column come from fewer than three distinct LOS IDs, or from exactly three with
  both 0 and 2 absent or both 1 and 3 absent; in every other case the row holds the
  ordinary-least-squares fit of that column.
\<close>

theorem wind_regression_skips_exactly_degenerate:
  assumes "distinct (map fst (columns wdf))" and "n < length (columns wdf)"
  shows "snd (wind_regression ols wdf elevation max_se ! n) =
     (if degenerate (measured_los (los_id wdf) (snd (columns wdf ! n))) then None
      else Some (fit_row ols (xmat_of (los_id wdf)) max_se (map fl_neg (snd (columns wdf ! n)))))"
  using wind_regression_nth[OF assms] by (simp add: skip_column_iff)

text \<open>
  An instance: five lines of sight and two range bins.  Bin 200 is measured on LOS 1, 3
  and 4 only and stays unassigned; bin 100 is measured on all five and is fitted.
\<close>

theorem wind_regression_skips_witness:
  "distinct (map fst [(100::nat, [Fin 1, Fin 2, Fin 3, Fin 4, Fin 5]), (200, [NaN, Fin 1, NaN, Fin 2, Fin 3])])
   \<and> snd (wind_regression (\<lambda>y x. ([Fin 1, Fin 2, Fin 3], [Fin 0.5, Fin 2, NaN]))
        \<lparr>los_id = [0, 1, 2, 3, 4],
         columns = [(100::nat, [Fin 1, Fin 2, Fin 3, Fin 4, Fin 5]), (200, [NaN, Fin 1, NaN, Fin 2, Fin 3])]\<rparr>
        (Fin 75) (Fin 1) ! 1) = None
   \<and> snd (wind_regression (\<lambda>y x. ([Fin 1, Fin 2, Fin 3], [Fin 0.5, Fin 2, NaN]))
        \<lparr>los_id = [0, 1, 2, 3, 4],
         columns = [(100::nat, [Fin 1, Fin 2, Fin 3, Fin 4, Fin 5]), (200, [NaN, Fin 1, NaN, Fin 2, Fin 3])]\<rparr>
        (Fin 75) (Fin 1) ! 0) = Some [Fin 1, NaN, NaN, Fin 0.5, Fin 2, NaN]"
  using wind_regression_skips_exactly_degenerate
    [of "\<lparr>los_id = [0, 1, 2, 3, 4],
         columns = [(100::nat, [Fin 1, Fin 2, Fin 3, Fin 4, Fin 5]), (200, [NaN, Fin 1, NaN, Fin 2, Fin 3])]\<rparr>" 1
        "\<lambda>y x. ([Fin 1, Fin 2, Fin 3], [Fin 0.5, Fin 2, NaN])" "Fin 75" "Fin 1"]
    wind_regression_skips_exactly_degenerate
    [of "\<lparr>los_id = [0, 1, 2, 3, 4],
         columns = [(100::nat, [Fin 1, Fin 2, Fin 3, Fin 4, Fin 5]), (200, [NaN, Fin 1, NaN, Fin 2, Fin 3])]\<rparr>" 0
        "\<lambda>y x. ([Fin 1, Fin 2, Fin 3], [Fin 0.5, Fin 2, NaN])" "Fin 75" "Fin 1"]
  by (simp add: degenerate_def measured_los_def fit_row_def assign_mask_def)

text \<open>
  C1 as stated fails when two columns share a label.  Column 0 has no measurement at
  all, so it is skipped; column 1 carries the same label and is fitted, and the
  label-based assignment writes the fit into the row of column 0 as well.
\<close>

theorem wind_regression_shared_label_counterexample:
  "\<forall>ols. degenerate (measured_los [0, 1, 2, 3] [NaN, NaN, NaN, NaN])
     \<and> snd (wind_regression ols
          \<lparr>los_id = [0, 1, 2, 3],
           columns = [(100::nat, [NaN, NaN, NaN, NaN]), (100, [Fin 1, Fin 2, Fin 3, Fin 4])]\<rparr>
          (Fin 75) (Fin 1) ! 0) \<noteq> None"
  by (simp add: degenerate_def measured_los_def wind_regression_def skip_column_def
      select_mask_def loc_set_def)

text \<open>
  C2, as amended.  For a dataframe whose column labels are pairwise distinct and a
  range bin \<open>n\<close> that the loop does not skip, let the solver return the coefficients
  \<open>cx, cy, cz\<close> with standard errors \<open>sx, sy, sz\<close>.  The returned row holds NaN for
  each coefficient whose standard error exceeds \<open>max_se\<close> or is not finite, the fitted
  coefficient otherwise, and the three standard errors as the solver returned them.
\<close>

theorem wind_regression_se_gate:
  assumes "distinct (map fst (columns wdf))" and "n < length (columns wdf)"
    and "\<not> skip_column (los_id wdf) (map fl_neg (snd (columns wdf ! n)))"
    and "ols (map fl_neg (snd (columns wdf ! n))) (xmat_of (los_id wdf)) = ([cx, cy, cz], [sx, sy, sz])"
  shows "snd (wind_regression ols wdf elevation max_se ! n) =
     Some [if fl_gt sx max_se \<or> \<not> isfinite sx then NaN else cx,
           if fl_gt sy max_se \<or> \<not> isfinite sy then NaN else cy,
           if fl_gt sz max_se \<or> \<not> isfinite sz then NaN else cz,
           sx, sy, sz]"
  using wind_regression_nth[OF assms(1,2)] assms(3,4)
  by (simp add: fit_row_def assign_mask_def)

text \<open>
  An instance with \<open>max_se = 1\<close>: the standard errors 1/2, 2 and infinity keep the
  first coefficient and blank the other two.
\<close>

theorem wind_regression_se_gate_witness:
  "distinct (map fst [(100::nat, [Fin 1, Fin 2, Fin 3, Fin 4, Fin 5])])
   \<and> \<not> skip_column [0, 1, 2, 3, 4] (map fl_neg [Fin 1, Fin 2, Fin 3, Fin 4, Fin 5])
   \<and> snd (wind_regression (\<lambda>y x. ([Fin 1, Fin 2, Fin 3], [Fin (1 / 2), Fin 2, PInf]))
        \<lparr>los_id = [0, 1, 2, 3, 4], columns = [(100::nat, [Fin 1, Fin 2, Fin 3, Fin 4, Fin 5])]\<rparr>
        (Fin 75) (Fin 1) ! 0) = Some [Fin 1, NaN, NaN, Fin (1 / 2), Fin 2, PInf]"
proof -
  have s: "\<not> skip_column [0, 1, 2, 3, 4] (map fl_neg [Fin 1, Fin 2, Fin 3, Fin 4, Fin 5])"
    by (simp add: skip_column_def select_mask_def)
  show ?thesis
    using s wind_regression_se_gate
      [of "\<lparr>los_id = [0, 1, 2, 3, 4], columns = [(100::nat, [Fin 1, Fin 2, Fin 3, Fin 4, Fin 5])]\<rparr>" 0
          "\<lambda>y x. ([Fin 1, Fin 2, Fin 3], [Fin (1 / 2), Fin 2, PInf])"
          "Fin 1" "Fin 2" "Fin 3" "Fin (1 / 2)" "Fin 2" PInf "Fin 75" "Fin 1"]
    by simp
qed

text \<open>
  C2 as stated fails when two columns share a label: the fit of column 0 has standard
  errors above \<open>max_se\<close>, yet the row returned for it holds the coefficients and
  standard errors of column 1, written last under the same label.
\<close>

theorem wind_regression_se_gate_counterexample:
  "\<not> skip_column [0, 1, 2, 3] (map fl_neg [Fin 1, Fin 2, Fin 3, Fin 4])
   \<and> (\<lambda>y x. if y = [Fin (- 1), Fin (- 2), Fin (- 3), Fin (- 4)]
              then ([Fin 1, Fin 1, Fin 1], [Fin 2, Fin 2, Fin 2])
              else ([Fin 3, Fin 3, Fin 3], [Fin (1 / 2), Fin (1 / 2), Fin (1 / 2)]))
        (map fl_neg [Fin 1, Fin 2, Fin 3, Fin 4]) (xmat_of [0, 1, 2, 3])
       = ([Fin 1, Fin 1, Fin 1], [Fin 2, Fin 2, Fin 2])
   \<and> snd (wind_regression
          (\<lambda>y x. if y = [Fin (- 1), Fin (- 2), Fin (- 3), Fin (- 4)]
              then ([Fin 1, Fin 1, Fin 1], [Fin 2, Fin 2, Fin 2])
              else ([Fin 3, Fin 3, Fin 3], [Fin (1 / 2), Fin (1 / 2), Fin (1 / 2)]))
          \<lparr>los_id = [0, 1, 2, 3],
           columns = [(100::nat, [Fin 1, Fin 2, Fin 3, Fin 4]), (100, [Fin 1, Fin 1, Fin 1, Fin 1])]\<rparr>
          (Fin 75) (Fin 1) ! 0)
       = Some [Fin 3, Fin 3, Fin 3, Fin (1 / 2), Fin (1 / 2), Fin (1 / 2)]"
  by (simp add: wind_regression_def skip_column_def select_mask_def loc_set_def
      fit_row_def assign_mask_def)

text \<open>
  C5.  The \<open>elevation\<close> argument does not reach the result: two calls that differ only
  in it return the same frame, and the elevation angle of the design matrix is 75
  degrees, or 90 degrees for LOS ID 4.
\<close>

theorem wind_regression_elevation_unused:
  "wind_regression ols wdf e1 max_se = wind_regression ols wdf e2 max_se
   \<and> el_of l * 180 / pi = (if l = 4 then 90 else 75)"
  by (simp add: wind_regression_def el_of_def)

subsection \<open>Dataframes with repeated column labels\<close>

lemma loc_set_nth:
  "n < length res \<Longrightarrow>
   loc_set l d res ! n = (if fst (res ! n) = l then (l, Some d) else res ! n)"
  unfolding loc_set_def by (auto simp: case_prod_unfold)

lemma length_loc_set: "length (loc_set l d res) = length res"
  unfolding loc_set_def by simp

lemma regress_loop_row_none:
  "n < length res \<Longrightarrow>
   (snd (regress_loop ols los xmat s cols res ! n) = None) =
     (snd (res ! n) = None
      \<and> (\<forall>(c, col)\<in>set cols. c = fst (res ! n) \<longrightarrow> skip_column los (map fl_neg col)))"
proof (induction cols arbitrary: res)
  case Nil
  then show ?case by simp
next
  case (Cons a cols)
  obtain c col where a: "a = (c, col)" by (cases a)
  show ?case
  proof (cases "skip_column los (map fl_neg col)")
    case True
    with Cons.IH[OF Cons.prems] a show ?thesis by auto
  next
    case False
    let ?res' = "loc_set c (fit_row ols xmat s (map fl_neg col)) res"
    have n': "n < length ?res'" using Cons.prems by (simp add: length_loc_set)
    have nth: "?res' ! n = (if fst (res ! n) = c then (c, Some (fit_row ols xmat s (map fl_neg col))) else res ! n)"
      using Cons.prems by (rule loc_set_nth)
    from Cons.IH[OF n'] False a nth show ?thesis by (auto simp: Let_def)
  qed
qed

text \<open>
  For every dataframe, repeated labels or not, the result row of column \<open>n\<close> is left unassigned exactly
  when every column that carries the label of column \<open>n\<close> is refused by the test on
  its LOS IDs.
\<close>

lemma wind_regression_row_unassigned:
  assumes "n < length (columns wdf)"
  shows "(snd (wind_regression ols wdf elevation max_se ! n) = None) =
     (\<forall>m<length (columns wdf). fst (columns wdf ! m) = fst (columns wdf ! n)
        \<longrightarrow> degenerate (measured_los (los_id wdf) (snd (columns wdf ! m))))"
proof -
  let ?init = "map (\<lambda>c. (c, None :: fl list option)) (map fst (columns wdf))"
  have n: "n < length ?init" using assms by simp
  have init: "?init ! n = (fst (columns wdf ! n), None)" using assms by simp
  have "(snd (wind_regression ols wdf elevation max_se ! n) = None) =
     (\<forall>(c, col)\<in>set (columns wdf). c = fst (columns wdf ! n) \<longrightarrow> skip_column (los_id wdf) (map fl_neg col))"
    unfolding wind_regression_def Let_def regress_loop_row_none[OF n] init by simp
  also have "\<dots> = (\<forall>m<length (columns wdf). fst (columns wdf ! m) = fst (columns wdf ! n)
        \<longrightarrow> degenerate (measured_los (los_id wdf) (snd (columns wdf ! m))))"
    unfolding skip_column_iff
    by (auto simp: all_set_conv_all_nth case_prod_unfold)
  finally show ?thesis .
qed

text \<open>
  An instance: two columns with one label, the first without any measurement and the
  second measured on four lines of sight; the row of the first is assigned.
\<close>

lemma wind_regression_row_unassigned_instance:
  "0 < length (columns \<lparr>los_id = [0, 1, 2, 3],
           columns = [(100::nat, [NaN, NaN, NaN, NaN]), (100, [Fin 1, Fin 2, Fin 3, Fin 4])]\<rparr>)
   \<and> \<not> degenerate (measured_los [0, 1, 2, 3] [Fin 1, Fin 2, Fin 3, Fin 4])
   \<and> (\<forall>ols. snd (wind_regression ols
          \<lparr>los_id = [0, 1, 2, 3],
           columns = [(100::nat, [NaN, NaN, NaN, NaN]), (100, [Fin 1, Fin 2, Fin 3, Fin 4])]\<rparr>
          (Fin 75) (Fin 1) ! 0) \<noteq> None)"
proof -
  let ?wdf = "\<lparr>los_id = [0, 1, 2, 3],
           columns = [(100::nat, [NaN, NaN, NaN, NaN]), (100, [Fin 1, Fin 2, Fin 3, Fin 4])]\<rparr>"
  have len: "0 < length (columns ?wdf)" by simp
  have nd: "\<not> degenerate (measured_los [0, 1, 2, 3] [Fin 1, Fin 2, Fin 3, Fin 4])"
    by (simp add: degenerate_def measured_los_def)
  have "snd (wind_regression ols ?wdf (Fin 75) (Fin 1) ! 0) \<noteq> None" for ols
  proof
    assume "snd (wind_regression ols ?wdf (Fin 75) (Fin 1) ! 0) = None"
    with wind_regression_row_unassigned[OF len, of ols "Fin 75" "Fin 1"]
    have "\<forall>m<length (columns ?wdf). fst (columns ?wdf ! m) = fst (columns ?wdf ! 0)
        \<longrightarrow> degenerate (measured_los (los_id ?wdf) (snd (columns ?wdf ! m)))" by simp
    then have "1 < length (columns ?wdf) \<and> fst (columns ?wdf ! 1) = fst (columns ?wdf ! 0)
        \<longrightarrow> degenerate (measured_los (los_id ?wdf) (snd (columns ?wdf ! 1)))" by blast
    with nd show False by simp
  qed
  with len nd show ?thesis by blast
qed

section \<open>\<open>weather_balloon\<close>: the end of the header is never found\<close>

lemma readlines_not_CRLF: "CRLF \<notin> set (readlines s)"
  using readlines_no_CR[of CRLF s] by (auto simp: CRLF_def CR_def)

lemma first_true_all_False: "\<forall>b \<in> set bs. \<not> b \<Longrightarrow> first_true bs = None"
  by (induction bs) auto

lemma read_header_readlines: "read_header (readlines s) = Inl IndexError"
proof -
  have "first_true (map (\<lambda>line. line = CRLF) (readlines s)) = None"
    using readlines_not_CRLF[of s] by (intro first_true_all_False) auto
  then show ?thesis by (simp add: read_header_def)
qed

lemma weather_balloon_raises:
  "weather_balloon env fname = (case file_text env fname of Inl e \<Rightarrow> Inl e | Inr fo \<Rightarrow> Inl IndexError)"
  by (simp add: weather_balloon_def read_balloon_def read_header_readlines split: sum.splits)

lemma readlines_sample_balloon_text:
  "readlines sample_balloon_text =
     [''Station Name (WMO #) : ALB (72518)'' @ [LF],
      ''Station Height  : 95 m'' @ [LF],
      ''Station Latitude : 42.69'' @ [LF],
      ''Station Longitude : -73.83'' @ [LF],
      ''Flight : 1, 01/01/17, 00:00:05'' @ [LF],
      ''File Name : FLT_010117_0000'' @ [LF],
      ''Observer Initial : ab'' @ [LF],
      ''Version # : 2.3'' @ [LF],
      [LF],
      ''Time Stamp;Elapsed Time'' @ [LF],
      ''00:00:05;0'' @ [LF]]"
  by (simp add: readlines_def sample_balloon_text_def CRLF_def CR_def LF_def)

text \<open>
  C10.  The header is meant to end at the first blank line, which the code looks for
  as a line equal to \<open>\r\n\<close> (line 296).  The lines come from a file opened in text
  mode, where every \<open>\r\n\<close> has become \<open>\n\<close>: in the sample file the blank line after
  the eight header lines is read as \<open>\n\<close>.  So no line of any file equals \<open>\r\n\<close>, and
  for every file the search raises \<open>IndexError\<close>: no header is taken and no key:value
  pair is parsed.
\<close>

theorem read_header_blank_line_missed:
  "readlines sample_balloon_text ! 8 = [LF] \<and>
   read_header (readlines sample_balloon_text) = Inl IndexError \<and>
   CRLF \<notin> set (readlines fo) \<and>
   read_header (readlines fo) = Inl IndexError"
proof -
  have "readlines sample_balloon_text ! 8 = [LF]"
    by (simp add: readlines_sample_balloon_text)
  then show ?thesis
    using read_header_readlines[of sample_balloon_text] read_header_readlines[of fo]
      readlines_not_CRLF[of fo]
    by blast
qed


text \<open>
  C4.  \<open>weather_balloon\<close> never reads the table.  For every \<open>fname\<close> that can be opened
  it raises \<open>IndexError\<close> at line 296, before \<open>read_csv\<close> is called at line 311: the
  result is the same whatever \<open>read_csv\<close> would return, for the fixed path or any
  other, and no dataset with data variables is returned.
\<close>

theorem weather_balloon_stops_before_data:
  "weather_balloon env fname = (case file_text env fname of Inl e \<Rightarrow> Inl e | Inr fo \<Rightarrow> Inl IndexError) \<and>
   weather_balloon (env\<lparr>read_csv := reader\<rparr>) fname = weather_balloon env fname"
  by (simp add: weather_balloon_raises)

section \<open>Verification of \<open>mwr_from_csv\<close>\<close>

subsection \<open>Decimal numerals\<close>

declare str_nat.simps [simp del]

lemma digits_val_snoc: "digits_val acc (s @ [c]) = 10 * digits_val acc s + digit_val c"
  by (induction s arbitrary: acc) auto

lemma less_10_cases: "n < 10 \<Longrightarrow> n \<in> set [0, 1, 2, 3, 4, 5, 6, 7, 8, 9 :: nat]"
  by (simp add: numeral_eq_Suc less_Suc_eq)

lemma digit_val_char: "n < 10 \<Longrightarrow> digit_val (''0123456789'' ! n) = int n"
  using less_10_cases[of n] by (auto simp: digit_val_def)

lemma digit_char_not_minus: "n < 10 \<Longrightarrow> ''0123456789'' ! n \<noteq> CHR ''-''"
  using less_10_cases[of n] by auto

lemma digits_val_str_nat: "digits_val 0 (str_nat n) = int n"
proof (induction n rule: str_nat.induct)
  case (1 n)
  show ?case
  proof (cases "n < 10")
    case True
    then show ?thesis by (subst str_nat.simps) (simp add: digit_val_char)
  next
    case False
    have "digits_val 0 (str_nat n) = 10 * digits_val 0 (str_nat (n div 10)) + digit_val (''0123456789'' ! (n mod 10))"
      using False by (subst str_nat.simps) (simp add: digits_val_snoc)
    also have "\<dots> = 10 * int (n div 10) + int (n mod 10)"
      using 1[OF False] by (simp add: digit_val_char)
    also have "\<dots> = int n" by presburger
    finally show ?thesis .
  qed
qed

lemma str_nat_inj: "str_nat a = str_nat b \<Longrightarrow> a = b"
proof -
  assume eq: "str_nat a = str_nat b"
  have "int a = digits_val 0 (str_nat a)" by (simp only: digits_val_str_nat)
  also have "\<dots> = digits_val 0 (str_nat b)" by (simp only: eq)
  also have "\<dots> = int b" by (simp only: digits_val_str_nat)
  finally show "a = b" by simp
qed

lemma str_nat_not_minus: "str_nat n \<noteq> [] \<and> hd (str_nat n) \<noteq> CHR ''-''"
proof (induction n rule: str_nat.induct)
  case (1 n)
  show ?case
  proof (cases "n < 10")
    case True
    have "''0123456789'' ! n \<noteq> CHR ''-''" using True by (rule digit_char_not_minus)
    with True show ?thesis by (subst (1 2) str_nat.simps) simp
  next
    case False
    with 1[OF False] show ?thesis by (subst (1 2) str_nat.simps) simp
  qed
qed

lemma str_int_inj: "str_int a = str_int b \<Longrightarrow> a = b"
proof -
  assume eq: "str_int a = str_int b"
  show "a = b"
  proof (cases "a < 0"; cases "b < 0")
    assume "a < 0" "b < 0"
    with eq have "nat (- a) = nat (- b)" by (simp add: str_int_def str_nat_inj)
    with \<open>a < 0\<close> \<open>b < 0\<close> show ?thesis by simp
  next
    assume "a < 0" "\<not> b < 0"
    with eq str_nat_not_minus[of "nat b"] show ?thesis
      by (cases "str_nat (nat b)") (auto simp: str_int_def)
  next
    assume "\<not> a < 0" "b < 0"
    with eq str_nat_not_minus[of "nat a"] show ?thesis
      by (cases "str_nat (nat a)") (auto simp: str_int_def)
  next
    assume "\<not> a < 0" "\<not> b < 0"
    with eq have "nat a = nat b" by (simp add: str_int_def str_nat_inj)
    with \<open>\<not> a < 0\<close> \<open>\<not> b < 0\<close> show ?thesis by simp
  qed
qed

subsection \<open>The type code of a line\<close>

text \<open>
  On a line with at least three fields whose only newline, if any, is its last
  character, the two substitutions of line 127 leave the third field, followed by the
  newline when further fields come after it.
\<close>

lemma fields_from_span:
  "fields_from cur s =
     (rev cur @ takeWhile (\<lambda>c. c \<noteq> CHR '','') s) #
       (case dropWhile (\<lambda>c. c \<noteq> CHR '','') s of [] \<Rightarrow> [] | c # r \<Rightarrow> fields_from [] r)"
  by (induction s arbitrary: cur) auto

lemma comma_fields_span:
  "comma_fields s =
     takeWhile (\<lambda>c. c \<noteq> CHR '','') s #
       (case dropWhile (\<lambda>c. c \<noteq> CHR '','') s of [] \<Rightarrow> [] | c # r \<Rightarrow> comma_fields r)"
  unfolding comma_fields_def by (subst fields_from_span) simp

lemma sub_comma_rest_span:
  "sub_comma_rest False s =
     takeWhile (\<lambda>c. c \<noteq> CHR '','') s @
       (case dropWhile (\<lambda>c. c \<noteq> CHR '','') s of [] \<Rightarrow> [] | c # r \<Rightarrow> sub_comma_rest True r)"
  by (induction s) auto

lemma sub_comma_rest_inside:
  "LF \<notin> set (butlast s) \<Longrightarrow>
     sub_comma_rest True s = (if s \<noteq> [] \<and> last s = LF then [LF] else [])"
proof (induction s)
  case Nil
  then show ?case by simp
next
  case (Cons c s)
  show ?case
  proof (cases "s = []")
    case True
    then show ?thesis by (simp add: LF_def)
  next
    case False
    with Cons.prems have "c \<noteq> LF" and "LF \<notin> set (butlast s)" by auto
    with Cons.IH False show ?thesis by (simp add: LF_def)
  qed
qed

lemma butlast_suffix: "LF \<notin> set (butlast (a @ b)) \<Longrightarrow> LF \<notin> set (butlast b)"
  by (cases "b = []") (auto simp: butlast_append)

lemma butlast_dropWhile: "LF \<notin> set (butlast s) \<Longrightarrow> LF \<notin> set (butlast (dropWhile P s))"
  using butlast_suffix[of "takeWhile P s" "dropWhile P s"] by simp

lemma butlast_tl: "LF \<notin> set (butlast s) \<Longrightarrow> LF \<notin> set (butlast (tl s))"
  using butlast_suffix[of "[hd s]" "tl s"] by (cases s) auto

lemma int_strip_trailing_space:
  assumes "int_space c"
  shows "int_strip (s @ [c]) = int_strip s"
proof (cases "\<forall>x\<in>set s. int_space x")
  case True
  then have a: "dropWhile int_space s = []" by simp
  from True assms have b: "dropWhile int_space (s @ [c]) = []" by simp
  show ?thesis by (simp only: int_strip_def a b)
next
  case False
  then obtain x where "x \<in> set s" "\<not> int_space x" by auto
  then have "dropWhile int_space (s @ [c]) = dropWhile int_space s @ [c]"
    by (rule dropWhile_append1)
  then show ?thesis using assms by (simp add: int_strip_def)
qed

lemma py_int_newline: "py_int (s @ [LF]) = py_int s"
proof -
  have "int_space LF" by (simp add: int_space_def LF_def)
  from int_strip_trailing_space[OF this, of s] show ?thesis
    unfolding py_int_def by simp
qed

lemma line_type_type_code:
  assumes nl: "LF \<notin> set (butlast line)" and three: "3 \<le> length (comma_fields line)"
  shows "line_type line = type_code line"
proof -
  let ?P = "\<lambda>c. c \<noteq> CHR '',''"
  from three obtain c1 r1 where d1: "dropWhile ?P line = c1 # r1"
    by (subst (asm) comma_fields_span) (auto split: list.splits)
  with three have three1: "2 \<le> length (comma_fields r1)"
    by (subst (asm) comma_fields_span) simp
  then obtain c2 r2 where d2: "dropWhile ?P r1 = c2 # r2"
    by (subst (asm) comma_fields_span) (auto split: list.splits)
  have f1: "comma_fields line = takeWhile ?P line # comma_fields r1"
    by (subst comma_fields_span) (simp add: d1)
  have f2: "comma_fields r1 = takeWhile ?P r1 # comma_fields r2"
    by (subst comma_fields_span) (simp add: d2)
  have f: "comma_fields line = takeWhile ?P line # takeWhile ?P r1 # comma_fields r2"
    by (simp only: f1 f2)
  have third: "comma_fields line ! 2 = takeWhile ?P r2"
    unfolding f by (subst comma_fields_span) simp
  have tc: "type_code line = py_int (takeWhile ?P r2)"
    using three third by (simp add: type_code_def list_getitem_def)
  have two: "sub_two_fields line = r2"
    by (simp add: sub_two_fields_def d1 d2)
  have nl1: "LF \<notin> set (butlast r1)"
    using butlast_tl[OF butlast_dropWhile[OF nl, of ?P]] d1 by simp
  have nl2: "LF \<notin> set (butlast r2)"
    using butlast_tl[OF butlast_dropWhile[OF nl1, of ?P]] d2 by simp
  have span: "sub_comma_rest False r2 =
      takeWhile ?P r2 @ (case dropWhile ?P r2 of [] \<Rightarrow> [] | c # r \<Rightarrow> sub_comma_rest True r)"
    by (rule sub_comma_rest_span)
  have "py_int (sub_comma_rest False r2) = py_int (takeWhile ?P r2)"
  proof (cases "dropWhile ?P r2")
    case Nil
    show ?thesis by (simp only: span Nil list.case append_Nil2)
  next
    case (Cons c3 r3)
    have "LF \<notin> set (butlast r3)"
      using butlast_tl[OF butlast_dropWhile[OF nl2, of ?P]] Cons by simp
    from sub_comma_rest_inside[OF this]
    have "sub_comma_rest True r3 = [LF] \<or> sub_comma_rest True r3 = []" by simp
    then show ?thesis
      by (auto simp only: span Cons list.case append_Nil2 py_int_newline)
  qed
  then show ?thesis unfolding line_type_def two tc .
qed

lemma type_code_three: "type_code line = Inr c \<Longrightarrow> 3 \<le> length (comma_fields line)"
  by (auto simp: type_code_def list_getitem_def split: if_splits)

subsection \<open>The loop over the header lines\<close>

lemma map_result_nth:
  "map_result f xs = Inr ys \<Longrightarrow> length ys = length xs \<and> (\<forall>i<length xs. f (xs ! i) = Inr (ys ! i))"
proof (induction xs arbitrary: ys)
  case Nil
  then show ?case by simp
next
  case (Cons x xs)
  then obtain w ws where fx: "f x = Inr w" and rest: "map_result f xs = Inr ws" and ys: "ys = w # ws"
    by (auto split: sum.splits)
  from Cons.IH[OF rest] have len: "length ws = length xs"
    and nth: "\<forall>i<length xs. f (xs ! i) = Inr (ws ! i)" by auto
  show ?case
  proof (intro conjI allI impI)
    show "length ys = length (x # xs)" using ys len by simp
  next
    fix i assume "i < length (x # xs)"
    then show "f ((x # xs) ! i) = Inr (ys ! i)"
      using fx nth ys by (cases i) auto
  qed
qed

lemma wrap64_id: "int64_ok i \<Longrightarrow> wrap64 i = i"
  by (simp add: int64_ok_def wrap64_def)

text \<open>
  The lines that the loop body collects for a header of type \<open>t\<close>, when the type codes
  fit in 64 bits and \<open>t + 4\<close> does too.
\<close>

lemma where_is_type_lines:
  assumes types: "length types = length lines"
    and nth: "\<forall>i<length lines. type_code (lines ! i) = Inr (types ! i) \<and> int64_ok (types ! i)"
    and t: "int64_ok t" "t + 4 < 2 ^ 63"
  shows "map (\<lambda>m. lines ! m) (where_is_type env types t) = matching_lines lines t"
proof -
  let ?P = "\<lambda>line. type_code line \<in> {Inr (t + 1), Inr (t + 2), Inr (t + 3), Inr (t + 4)}"
  have acc: "map (\<lambda>k. wrap64 (k + t)) [1, 2, 3, 4] = [t + 1, t + 2, t + 3, t + 4]"
    using t by (simp add: wrap64_def int64_ok_def add.commute)
  have "where_is_type env types t = filter (\<lambda>m. ?P (lines ! m)) [0..<length lines]"
    unfolding where_is_type_def Let_def acc
    using types nth by (auto intro!: filter_cong)
  moreover have "map (\<lambda>m. lines ! m) (filter (\<lambda>m. ?P (lines ! m)) [0..<length lines]) = filter ?P lines"
  proof -
    have "filter ?P lines = filter ?P (map (\<lambda>m. lines ! m) [0..<length lines])"
      by (simp only: map_nth)
    also have "\<dots> = map (\<lambda>m. lines ! m) (filter (\<lambda>m. ?P (lines ! m)) [0..<length lines])"
      by (simp only: filter_map comp_def)
    finally show ?thesis by simp
  qed
  ultimately show ?thesis unfolding matching_lines_def by simp
qed

lemma csv_loop_append:
  "csv_loop env lines types (xs @ ys) c0 =
     (case csv_loop env lines types xs c0 of Inl e \<Rightarrow> Inl e | Inr c1 \<Rightarrow> csv_loop env lines types ys c1)"
  by (induction xs arbitrary: c0) (simp_all add: Let_def split: sum.splits)

text \<open>Headers of another type code, or with no line to collect, leave the entry alone.\<close>

lemma csv_loop_untouched:
  assumes "\<forall>n\<in>set headers. types ! n = t \<longrightarrow> where_is_type env types t = []"
    and "csv_loop env lines types headers c0 = Inr c"
  shows "c (str_int t) = c0 (str_int t)"
  using assms
proof (induction headers arbitrary: c0)
  case Nil
  then show ?case by simp
next
  case (Cons n headers)
  from Cons.prems(1) have rest: "\<forall>n\<in>set headers. types ! n = t \<longrightarrow> where_is_type env types t = []"
    by simp
  show ?case
  proof (cases "where_is_type env types (types ! n) = []")
    case True
    with Cons.prems(2) have "csv_loop env lines types headers c0 = Inr c"
      by (simp split: if_splits)
    from Cons.IH[OF rest this] show ?thesis .
  next
    case False
    with Cons.prems(1) have ne: "types ! n \<noteq> t" by auto
    from False Cons.prems(2) obtain df where
      "csv_loop env lines types headers (c0(str_int (types ! n) \<mapsto> df)) = Inr c"
      by (auto simp: Let_def split: sum.splits if_splits)
    from Cons.IH[OF rest this] ne show ?thesis
      using str_int_inj[of "types ! n" t] by auto
  qed
qed

lemma csv_loop_single:
  assumes "csv_loop env lines types [n] c1 = Inr csvs"
  shows "int64_ok (types ! n) \<and>
     (if where_is_type env types (types ! n) = [] then csvs = c1
      else (\<exists>df. read_csv_text env (concat (lines ! n # map (\<lambda>m. lines ! m) (where_is_type env types (types ! n)))) = Inr df
                 \<and> csvs = c1(str_int (types ! n) \<mapsto> df)))"
  using assms by (auto simp: Let_def split: sum.splits if_splits)

text \<open>
  The iteration for the header at line \<open>n\<close> stores its table, and later headers of
  other type codes do not touch it.
\<close>

lemma mwr_csvs_header_step:
  assumes run: "mwr_csvs env fo = Inr final"
    and codes: "\<forall>line\<in>set (readlines fo). \<exists>c. type_code line = Inr c \<and> int64_ok c"
    and n: "n < length (readlines fo)" and header: "is_record (readlines fo ! n)"
    and tn: "type_code (readlines fo ! n) = Inr t" and t4: "t + 4 < 2 ^ 63"
  shows "\<exists>csvs. csvs_after env fo n = Inr csvs
       \<and> (if matching_lines (readlines fo) t = [] then csvs (str_int t) = None
          else (\<exists>df. read_csv_text env (concat (readlines fo ! n # matching_lines (readlines fo) t)) = Inr df
                     \<and> csvs (str_int t) = Some df))
       \<and> ((\<forall>m. n < m \<and> m < length (readlines fo) \<and> is_record (readlines fo ! m)
                 \<longrightarrow> type_code (readlines fo ! m) \<noteq> Inr t)
            \<longrightarrow> final (str_int t) = csvs (str_int t))"
proof -
  define lines where "lines = readlines fo"
  let ?hs = "filter (\<lambda>n. is_record (lines ! n)) [0..<length lines]"
  let ?pre = "filter (\<lambda>n. is_record (lines ! n)) [0..<n]"
  let ?upto = "filter (\<lambda>n. is_record (lines ! n)) [0..<Suc n]"
  let ?post = "filter (\<lambda>n. is_record (lines ! n)) [Suc n..<length lines]"
  from run obtain types where
    types: "map_result line_type lines = Inr types"
    and loop: "csv_loop env lines types ?hs Map.empty = Inr final"
    unfolding mwr_csvs_def lines_def by (auto simp: Let_def split: sum.splits if_splits)
  from map_result_nth[OF types] have len: "length types = length lines"
    and nth0: "\<forall>i<length lines. line_type (lines ! i) = Inr (types ! i)" by auto
  have nth: "\<forall>i<length lines. type_code (lines ! i) = Inr (types ! i) \<and> int64_ok (types ! i)"
  proof (intro allI impI)
    fix i assume i: "i < length lines"
    then have mem: "lines ! i \<in> set (readlines fo)" by (simp add: lines_def)
    with codes obtain c where c: "type_code (lines ! i) = Inr c" "int64_ok c" by blast
    from readlines_shape[OF mem] type_code_three[OF c(1)]
    have "line_type (lines ! i) = type_code (lines ! i)" by (intro line_type_type_code) simp_all
    with nth0 i c show "type_code (lines ! i) = Inr (types ! i) \<and> int64_ok (types ! i)" by simp
  qed
  have n': "n < length lines" using n by (simp add: lines_def)
  have tn': "types ! n = t" using nth n' tn by (simp add: lines_def)
  have t64: "int64_ok t" using nth n' tn' by auto
  have W: "map (\<lambda>m. lines ! m) (where_is_type env types t) = matching_lines lines t"
    by (rule where_is_type_lines[OF len nth t64 t4])
  have Wnil: "(where_is_type env types t = []) = (matching_lines lines t = [])"
    using W by (metis map_is_Nil_conv)
  have total: "Suc n + (length lines - Suc n) = length lines" using n' by simp
  have "[0..<Suc n + (length lines - Suc n)]
          = [0..<Suc n] @ [Suc n..<Suc n + (length lines - Suc n)]"
    by (rule upt_add_eq_append) simp
  then have "[0..<length lines] = [0..<Suc n] @ [Suc n..<length lines]"
    by (simp only: total)
  then have hs: "?hs = ?upto @ ?post" by (metis filter_append)
  have upto: "?upto = ?pre @ [n]" using header by (simp add: lines_def)
  from loop obtain csvs where
    mid: "csv_loop env lines types ?upto Map.empty = Inr csvs"
    and post_loop: "csv_loop env lines types ?post csvs = Inr final"
    unfolding hs csv_loop_append by (auto split: sum.splits)
  from mid obtain c1 where
    c1: "csv_loop env lines types ?pre Map.empty = Inr c1"
    and step: "csv_loop env lines types [n] c1 = Inr csvs"
    unfolding upto csv_loop_append by (auto split: sum.splits)
  have after: "csvs_after env fo n = Inr csvs"
    unfolding csvs_after_def Let_def lines_def[symmetric] types using mid by simp
  have table: "if matching_lines lines t = [] then csvs (str_int t) = None
          else (\<exists>df. read_csv_text env (concat (lines ! n # matching_lines lines t)) = Inr df
                     \<and> csvs (str_int t) = Some df)"
  proof (cases "matching_lines lines t = []")
    case True
    have "\<forall>m\<in>set ?upto. types ! m = t \<longrightarrow> where_is_type env types t = []"
      using True Wnil by simp
    from csv_loop_untouched[OF this mid] True show ?thesis by simp
  next
    case False
    with csv_loop_single[OF step] tn' Wnil W show ?thesis by auto
  qed
  have last: "final (str_int t) = csvs (str_int t)"
    if later: "\<forall>m. n < m \<and> m < length lines \<and> is_record (lines ! m) \<longrightarrow> type_code (lines ! m) \<noteq> Inr t"
  proof -
    have "\<forall>m\<in>set ?post. types ! m \<noteq> t" using later nth by auto
    then have "\<forall>m\<in>set ?post. types ! m = t \<longrightarrow> where_is_type env types t = []" by simp
    from csv_loop_untouched[OF this post_loop] show ?thesis .
  qed
  from after table last show ?thesis unfolding lines_def by blast
qed

subsection \<open>The sample files\<close>

lemma readlines_sample_mwr:
  "readlines sample_mwr =
     [''Record,Date/Time,400,LV2 Processor,0.00,0.10\<newline>'',
      ''1,01/01/17 00:00:05,401,Zenith,280.1,279.5\<newline>'',
      ''Record,Date/Time,100,Title\<newline>'',
      ''2,01/01/17 00:00:06,402,Zenith,279.9,279.1\<newline>'',
      ''3,01/01/17 00:00:07,101,Temperature (K)\<newline>'']"
  by (simp add: readlines_def sample_mwr_def CR_def LF_def)

lemma sample_mwr_type_codes:
  "map type_code (readlines sample_mwr) = [Inr 400, Inr 401, Inr 100, Inr 402, Inr 101]"
  unfolding readlines_sample_mwr
  by (simp add: type_code_def comma_fields_def list_getitem_def py_int_def int_strip_def
      int_space_def is_digit_def digit_val_def)

lemma sample_mwr_types:
  "map_result line_type (readlines sample_mwr) = Inr [400, 401, 100, 402, 101]"
  unfolding readlines_sample_mwr
  by (simp add: line_type_def sub_two_fields_def py_int_def int_strip_def int_space_def
      is_digit_def digit_val_def)

lemma sample_mwr_csvs:
  "mwr_csvs sample_mwr_env sample_mwr =
     Inr (Map.empty(''400'' \<mapsto> concat [readlines sample_mwr ! 0, readlines sample_mwr ! 1, readlines sample_mwr ! 3],
                    ''100'' \<mapsto> concat [readlines sample_mwr ! 2, readlines sample_mwr ! 4]))"
proof -
  have hs: "filter (\<lambda>n. is_record (readlines sample_mwr ! n)) [0..<length (readlines sample_mwr)] = [0, 2]"
    by (simp add: readlines_sample_mwr is_record_def)
  have s400: "str_int 400 = ''400''" and s100: "str_int 100 = ''100''"
    by (simp_all add: str_int_def str_nat.simps)
  have w400: "where_is_type sample_mwr_env [400, 401, 100, 402, 101] 400 = [1, 3]"
    and w100: "where_is_type sample_mwr_env [400, 401, 100, 402, 101] 100 = [4]"
    by (simp_all add: where_is_type_def int64_ok_def wrap64_def upt_rec[of _ "Suc _"] upt_rec[of 0])
  have rd: "read_csv_text sample_mwr_env = Inr" by (simp add: sample_mwr_env_def)
  show ?thesis
    unfolding mwr_csvs_def Let_def sample_mwr_types hs
    by (simp add: w400 w100 s400 s100 int64_ok_def rd)
qed

lemma readlines_wrapping_mwr:
  "readlines wrapping_mwr =
     [''Record,Date/Time,9223372036854775806,Title\<newline>'',
      ''1,01/01/17 00:00:05,-9223372036854775808,Zenith\<newline>'']"
  by (simp add: readlines_def wrapping_mwr_def CR_def LF_def)

lemma wrapping_mwr_type_codes:
  "map type_code (readlines wrapping_mwr) = [Inr 9223372036854775806, Inr (- 9223372036854775808)]"
  unfolding readlines_wrapping_mwr
  by (simp add: type_code_def comma_fields_def list_getitem_def py_int_def int_strip_def
      int_space_def is_digit_def digit_val_def)

lemma wrapping_mwr_types:
  "map_result line_type (readlines wrapping_mwr) = Inr [9223372036854775806, - 9223372036854775808]"
  unfolding readlines_wrapping_mwr
  by (simp add: line_type_def sub_two_fields_def py_int_def int_strip_def int_space_def
      is_digit_def digit_val_def)

lemma str_int_wrapping: "str_int 9223372036854775806 = ''9223372036854775806''"
  by (simp add: str_int_def str_nat.simps)

lemma wrapping_mwr_csvs:
  "mwr_csvs sample_mwr_env wrapping_mwr = Inr (Map.empty(''9223372036854775806'' \<mapsto> wrapping_mwr))"
proof -
  have hs: "filter (\<lambda>n. is_record (readlines wrapping_mwr ! n)) [0..<length (readlines wrapping_mwr)] = [0]"
    by (simp add: readlines_wrapping_mwr is_record_def)
  have w: "where_is_type sample_mwr_env [9223372036854775806, - 9223372036854775808] 9223372036854775806 = [1]"
    by (simp add: where_is_type_def int64_ok_def wrap64_def upt_rec[of _ "Suc _"] upt_rec[of 0])
  have text_eq: "concat [readlines wrapping_mwr ! 0, readlines wrapping_mwr ! 1] = wrapping_mwr"
    unfolding readlines_wrapping_mwr by (simp add: wrapping_mwr_def)
  have rd: "read_csv_text sample_mwr_env = Inr" by (simp add: sample_mwr_env_def)
  show ?thesis
    unfolding mwr_csvs_def Let_def wrapping_mwr_types hs
    using text_eq by (simp add: w str_int_wrapping int64_ok_def rd)
qed

lemma filter_by_code:
  "filter (\<lambda>line. f line \<in> A) xs = map fst (filter (\<lambda>p. snd p \<in> A) (zip xs (map f xs)))"
  by (induction xs) auto

text \<open>
  C9.  The type code of a line is the integer in its third comma-separated field.  Let
  the dictionary be built from a file whose every line has a third field holding an
  integer that fits in 64 bits, and let line \<open>n\<close> begin with \<open>Record\<close> and have a type
  code \<open>t\<close> with \<open>t + 4 < 2 ^ 63\<close>.  When the loop has dealt with this header line, the
  dictionary has no entry under the key \<open>str(t)\<close> if no line of the file has a type
  code in \<open>{t + 1, ..., t + 4}\<close>; otherwise its entry is the table read from that header
  line followed by exactly those lines, in file order.  The entry is still there in
  the returned dictionary unless a later header line has the same type code.
\<close>

theorem mwr_csvs_tables:
  assumes "mwr_csvs env fo = Inr final"
    and "\<forall>line\<in>set (readlines fo). \<exists>c. type_code line = Inr c \<and> int64_ok c"
    and "n < length (readlines fo)" and "is_record (readlines fo ! n)"
    and "type_code (readlines fo ! n) = Inr t" and "t + 4 < 2 ^ 63"
  shows "\<exists>csvs. csvs_after env fo n = Inr csvs
       \<and> (if matching_lines (readlines fo) t = [] then csvs (str_int t) = None
          else (\<exists>df. read_csv_text env (concat (readlines fo ! n # matching_lines (readlines fo) t)) = Inr df
                     \<and> csvs (str_int t) = Some df))
       \<and> ((\<forall>m. n < m \<and> m < length (readlines fo) \<and> is_record (readlines fo ! m)
                 \<longrightarrow> type_code (readlines fo ! m) \<noteq> Inr t)
            \<longrightarrow> final (str_int t) = csvs (str_int t))"
  using assms by (rule mwr_csvs_header_step)

text \<open>
  An instance: the sample file has the headers 400 and 100; the table of 400 is its
  header followed by the lines of type 401 and 402, and it is in the returned
  dictionary.
\<close>

theorem mwr_csvs_tables_witness:
  "(\<exists>final. mwr_csvs sample_mwr_env sample_mwr = Inr final
      \<and> final ''400'' = Some (concat [''Record,Date/Time,400,LV2 Processor,0.00,0.10\<newline>'',
                                       ''1,01/01/17 00:00:05,401,Zenith,280.1,279.5\<newline>'',
                                       ''2,01/01/17 00:00:06,402,Zenith,279.9,279.1\<newline>'']))
   \<and> is_record (readlines sample_mwr ! 0)
   \<and> map type_code (readlines sample_mwr) = [Inr 400, Inr 401, Inr 100, Inr 402, Inr 101]
   \<and> matching_lines (readlines sample_mwr) 400 =
       [''1,01/01/17 00:00:05,401,Zenith,280.1,279.5\<newline>'',
        ''2,01/01/17 00:00:06,402,Zenith,279.9,279.1\<newline>'']"
proof -
  obtain final where run: "mwr_csvs sample_mwr_env sample_mwr = Inr final"
    using sample_mwr_csvs by blast
  have rec0: "is_record (readlines sample_mwr ! 0)"
    by (simp add: readlines_sample_mwr is_record_def)
  have len: "0 < length (readlines sample_mwr)" by (simp add: readlines_sample_mwr)
  have len5: "length (readlines sample_mwr) = 5" by (simp add: readlines_sample_mwr)
  have code: "type_code (readlines sample_mwr ! i) = [Inr 400, Inr 401, Inr 100, Inr 402, Inr 101] ! i"
    if "i < 5" for i
    using that len5 nth_map[of i "readlines sample_mwr" type_code]
    by (simp only: sample_mwr_type_codes)
  have t0: "type_code (readlines sample_mwr ! 0) = Inr 400" using code[of 0] by simp
  have t2: "type_code (readlines sample_mwr ! 2) \<noteq> Inr 400" using code[of 2] by simp
  have codes: "\<forall>line\<in>set (readlines sample_mwr). \<exists>c. type_code line = Inr c \<and> int64_ok c"
  proof
    fix line assume "line \<in> set (readlines sample_mwr)"
    then have "type_code line \<in> set (map type_code (readlines sample_mwr))" by simp
    then have "type_code line \<in> set [Inr 400, Inr 401, Inr 100, Inr 402, Inr 101]"
      by (simp only: sample_mwr_type_codes)
    then show "\<exists>c. type_code line = Inr c \<and> int64_ok c"
      by (auto simp: int64_ok_def)
  qed
  have later: "\<forall>m. 0 < m \<and> m < length (readlines sample_mwr) \<and> is_record (readlines sample_mwr ! m)
                 \<longrightarrow> type_code (readlines sample_mwr ! m) \<noteq> Inr 400"
  proof (intro allI impI)
    fix m assume "0 < m \<and> m < length (readlines sample_mwr) \<and> is_record (readlines sample_mwr ! m)"
    then have "m \<in> set (filter (\<lambda>n. is_record (readlines sample_mwr ! n)) [0..<length (readlines sample_mwr)])"
      and "0 < m" by auto
    then have "m = 2" by (simp add: readlines_sample_mwr is_record_def)
    with t2 show "type_code (readlines sample_mwr ! m) \<noteq> Inr 400" by simp
  qed
  have m400: "matching_lines (readlines sample_mwr) 400 =
       [''1,01/01/17 00:00:05,401,Zenith,280.1,279.5\<newline>'',
        ''2,01/01/17 00:00:06,402,Zenith,279.9,279.1\<newline>'']"
  proof -
    have "matching_lines (readlines sample_mwr) 400 =
        filter (\<lambda>line. type_code line \<in> {Inr 401, Inr 402, Inr 403, Inr 404}) (readlines sample_mwr)"
      by (simp add: matching_lines_def)
    also have "\<dots> =
        map fst (filter (\<lambda>p. snd p \<in> {Inr 401, Inr 402, Inr 403, Inr 404})
          (zip (readlines sample_mwr) (map type_code (readlines sample_mwr))))"
      by (rule filter_by_code)
    also have "\<dots> = [readlines sample_mwr ! 1, readlines sample_mwr ! 3]"
      unfolding sample_mwr_type_codes by (simp add: readlines_sample_mwr)
    finally show ?thesis by (simp add: readlines_sample_mwr)
  qed
  have s400: "str_int 400 = ''400''" by (simp add: str_int_def str_nat.simps)
  have t4: "(400 :: int) + 4 < 2 ^ 63" by simp
  note t = mwr_csvs_tables[OF run codes len rec0 t0 t4]
  from t later m400 have "final (str_int 400) =
      Some (concat (readlines sample_mwr ! 0 # [''1,01/01/17 00:00:05,401,Zenith,280.1,279.5\<newline>'',
        ''2,01/01/17 00:00:06,402,Zenith,279.9,279.1\<newline>'']))"
    by (auto simp: sample_mwr_env_def)
  then have entry: "final ''400'' = Some (concat [''Record,Date/Time,400,LV2 Processor,0.00,0.10\<newline>'',
                                       ''1,01/01/17 00:00:05,401,Zenith,280.1,279.5\<newline>'',
                                       ''2,01/01/17 00:00:06,402,Zenith,279.9,279.1\<newline>''])"
    unfolding s400 by (simp add: readlines_sample_mwr)
  from run entry rec0 m400 sample_mwr_type_codes show ?thesis by blast
qed

text \<open>
  The claim without the bound on \<open>t\<close> fails.  The header of the second sample file has
  the type code \<open>2 ^ 63 - 2\<close>, and no line has a type code in \<open>{t + 1, ..., t + 4}\<close>.  In
  64 bits \<open>t + 2\<close> wraps around to \<open>- 2 ^ 63\<close>, which is the type code of the second
  line: the dictionary holds under \<open>str(t)\<close> a table with that line.
\<close>

theorem mwr_csvs_wrap_counterexample:
  "(\<exists>final. mwr_csvs sample_mwr_env wrapping_mwr = Inr final
      \<and> final (str_int 9223372036854775806) =
          Some (concat [''Record,Date/Time,9223372036854775806,Title\<newline>'',
                        ''1,01/01/17 00:00:05,-9223372036854775808,Zenith\<newline>'']))
   \<and> is_record (readlines wrapping_mwr ! 0)
   \<and> map type_code (readlines wrapping_mwr) = [Inr 9223372036854775806, Inr (- 9223372036854775808)]
   \<and> matching_lines (readlines wrapping_mwr) 9223372036854775806 = []"
proof -
  have entry: "\<exists>final. mwr_csvs sample_mwr_env wrapping_mwr = Inr final
      \<and> final (str_int 9223372036854775806) =
          Some (concat [''Record,Date/Time,9223372036854775806,Title\<newline>'',
                        ''1,01/01/17 00:00:05,-9223372036854775808,Zenith\<newline>''])"
    unfolding wrapping_mwr_csvs str_int_wrapping by (simp add: wrapping_mwr_def)
  have rec0: "is_record (readlines wrapping_mwr ! 0)"
    by (simp add: readlines_wrapping_mwr is_record_def)
  have none: "matching_lines (readlines wrapping_mwr) 9223372036854775806 = []"
  proof -
    have "matching_lines (readlines wrapping_mwr) 9223372036854775806 =
        filter (\<lambda>line. type_code line \<in> {Inr 9223372036854775807, Inr 9223372036854775808,
                                            Inr 9223372036854775809, Inr 9223372036854775810})
          (readlines wrapping_mwr)"
      by (simp add: matching_lines_def)
    also have "\<dots> =
        map fst (filter (\<lambda>p. snd p \<in> {Inr 9223372036854775807, Inr 9223372036854775808,
                                        Inr 9223372036854775809, Inr 9223372036854775810})
          (zip (readlines wrapping_mwr) (map type_code (readlines wrapping_mwr))))"
      by (rule filter_by_code)
    also have "\<dots> = []"
      unfolding wrapping_mwr_type_codes by (simp add: readlines_wrapping_mwr)
    finally show ?thesis .
  qed
  from entry rec0 wrapping_mwr_type_codes none show ?thesis by blast
qed

section \<open>Verification of \<open>decode_rrs\<close>\<close>

text \<open>
  C7, as amended.  \<open>decode_rrs\<close> calls the decoder exactly once, with three
  arguments: the input file and the requested outputs as given, and the output
  directory as rendered by pathlib, followed by a slash.
\<close>

theorem decode_rrs_call:
  "decode_rrs path_str bufrin outputs outdir = [(bufrin, outputs, path_str outdir @ ''/'')]
   \<and> length (decode_rrs path_str bufrin outputs outdir) = 1
   \<and> last (snd (snd (hd (decode_rrs path_str bufrin outputs outdir)))) = CHR ''/''"
  by (simp add: decode_rrs_def)

text \<open>
  C7 as stated fails for the default, empty \<open>outdir\<close>: whatever pathlib makes of the
  empty path, the decoder receives a directory that ends with a slash, not the empty
  string.
\<close>

theorem decode_rrs_outdir_counterexample:
  "\<forall>path_str. decode_rrs path_str ''sonde.bufr'' ''1'' [] \<noteq> [(''sonde.bufr'', ''1'', [])]"
  by (simp add: decode_rrs_def)

section \<open>Verification of \<open>lidar_from_csv\<close>\<close>

lemma pivot_Inr:
  assumes "pivot frame = Inr (index, cols, grid)"
  shows "distinct index" and "set index = (\<lambda>(i, c, v). i) ` set frame"
    and "distinct cols" and "set cols = (\<lambda>(i, c, v). c) ` set frame"
    and "length grid = length index"
    and "\<forall>a<length index. length (grid ! a) = length cols"
    and "\<forall>(i, c, v)\<in>set frame. \<forall>a b. a < length index \<and> b < length cols \<and> index ! a = i \<and> cols ! b = c
           \<longrightarrow> grid ! a ! b = Some v"
proof -
  from assms have d: "distinct (map (\<lambda>(i, c, v). (i, c)) frame)"
    and index: "index = sort (remdups (map (\<lambda>(i, c, v). i) frame))"
    and cols: "cols = sort (remdups (map (\<lambda>(i, c, v). c) frame))"
    and grid: "grid = map (\<lambda>i. map (\<lambda>c. map_of (map (\<lambda>(i, c, v). ((i, c), v)) frame) (i, c)) cols) index"
    unfolding pivot_def by (auto simp: Let_def split: if_splits)
  show "distinct index" "set index = (\<lambda>(i, c, v). i) ` set frame"
    "distinct cols" "set cols = (\<lambda>(i, c, v). c) ` set frame"
    unfolding index cols by simp_all
  show "length grid = length index" unfolding grid by simp
  show "\<forall>a<length index. length (grid ! a) = length cols" unfolding grid by simp
  have fsts: "map fst (map (\<lambda>(i, c, v). ((i, c), v)) frame) = map (\<lambda>(i, c, v). (i, c)) frame"
    by (induction frame) auto
  have cell: "map_of (map (\<lambda>(i, c, v). ((i, c), v)) frame) (i, c) = Some v" if "(i, c, v) \<in> set frame" for i c v
  proof (rule map_of_is_SomeI)
    show "distinct (map fst (map (\<lambda>(i, c, v). ((i, c), v)) frame))" using d by (simp only: fsts)
    show "((i, c), v) \<in> set (map (\<lambda>(i, c, v). ((i, c), v)) frame)" using that by force
  qed
  show "\<forall>(i, c, v)\<in>set frame. \<forall>a b. a < length index \<and> b < length cols \<and> index ! a = i \<and> cols ! b = c
           \<longrightarrow> grid ! a ! b = Some v"
    unfolding grid using cell by auto
qed

text \<open>
  C8.  When \<open>lidar_from_csv\<close> returns a dataset, its \<open>Time\<close> coordinate is the parsed
  list of the distinct time stamps of the CSV, its \<open>Range\<close> coordinate is the list of
  the distinct ranges, and \<open>RWS\<close> is a grid with one row per time stamp and one column
  per range whose entry at the position of a CSV row's time stamp and range is that
  row's \<open>RWS [m/s]\<close>.
\<close>

theorem lidar_from_csv_grid:
  assumes "lidar_from_csv to_dt csv = Inr ds"
  shows "\<exists>index grid.
       distinct index \<and> set index = r_timestamp ` set (csv_rows csv)
     \<and> map_result to_dt index = Inr (ds_time ds)
     \<and> distinct (ds_range ds) \<and> set (ds_range ds) = r_range ` set (csv_rows csv)
     \<and> ds_vars ds ''RWS'' = Some grid \<and> length grid = length index
     \<and> (\<forall>a<length index. length (grid ! a) = length (ds_range ds))
     \<and> (\<forall>row\<in>set (csv_rows csv). \<forall>a b.
           a < length index \<and> b < length (ds_range ds)
           \<and> index ! a = r_timestamp row \<and> ds_range ds ! b = r_range row
           \<longrightarrow> grid ! a ! b = r_values row ''RWS [m/s]'')"
proof -
  let ?frame = "map (\<lambda>row. (r_timestamp row, r_range row, r_values row)) (csv_rows csv)"
  from assms obtain index cols data time_values where
    pv: "pivot ?frame = Inr (index, cols, data)"
    and tv: "map_result to_dt index = Inr time_values"
    and need: "set [''RWS [m/s]'', ''DRWS [m/s]'', ''CNR [db]''] \<subseteq> set (value_columns csv)"
    and time: "ds_time ds = time_values" and range: "ds_range ds = cols"
    and vars: "ds_vars ds = (\<lambda>name.
        if name = ''Status''
        then map_option (map (map as_bool))
               (map_of (map (\<lambda>level. (level, level_grid data level))
                  (filter (\<lambda>name. name \<in> set (value_columns csv)) measurement_names)) ''Status'')
        else (case filter (\<lambda>level. renamed level = name)
                    (filter (\<lambda>name. name \<in> set (value_columns csv)) measurement_names) of
                [] \<Rightarrow> None
              | level # _ \<Rightarrow>
                  map_of (map (\<lambda>level. (level, level_grid data level))
                    (filter (\<lambda>name. name \<in> set (value_columns csv)) measurement_names)) level))"
    unfolding lidar_from_csv_def
    by (auto simp: Let_def split: sum.splits prod.splits if_splits)
  note p = pivot_Inr[OF pv]
  have rws: "ds_vars ds ''RWS'' = Some (level_grid data ''RWS [m/s]'')"
    using need unfolding vars by (simp add: measurement_names_def renamed_def)
  let ?grid = "level_grid data ''RWS [m/s]''"
  have cells: "\<forall>row\<in>set (csv_rows csv). \<forall>a b.
           a < length index \<and> b < length cols \<and> index ! a = r_timestamp row \<and> cols ! b = r_range row
           \<longrightarrow> ?grid ! a ! b = r_values row ''RWS [m/s]''"
  proof (intro ballI allI impI)
    fix row a b
    assume row: "row \<in> set (csv_rows csv)"
      and ab: "a < length index \<and> b < length cols \<and> index ! a = r_timestamp row \<and> cols ! b = r_range row"
    from row have "(r_timestamp row, r_range row, r_values row) \<in> set ?frame" by force
    with p(7) ab have "data ! a ! b = Some (r_values row)" by blast
    moreover have "a < length data" "b < length (data ! a)" using ab p(5,6) by auto
    ultimately show "?grid ! a ! b = r_values row ''RWS [m/s]''"
      unfolding level_grid_def by simp
  qed
  have "distinct index" by (rule p(1))
  moreover have "set index = r_timestamp ` set (csv_rows csv)" using p(2) by force
  moreover have "map_result to_dt index = Inr (ds_time ds)" using tv time by simp
  moreover have "distinct (ds_range ds)" using p(3) range by simp
  moreover have "set (ds_range ds) = r_range ` set (csv_rows csv)" using p(4) range by force
  moreover have "length ?grid = length index" using p(5) by (simp add: level_grid_def)
  moreover have "\<forall>a<length index. length (?grid ! a) = length (ds_range ds)"
    using p(5,6) range by (simp add: level_grid_def)
  ultimately show ?thesis using rws cells range by blast
qed

lemma sample_lidar_pivot:
  "pivot (map (\<lambda>row. (r_timestamp row, r_range row, r_values row)) (csv_rows sample_lidar)) =
     Inr ([''2017-01-01 00:00:01'', ''2017-01-01 00:00:02''], [100, 200],
          [[Some (\<lambda>name. if name = ''RWS [m/s]'' then Fin 1 else Fin 0),
            Some (\<lambda>name. if name = ''RWS [m/s]'' then Fin 2 else Fin 0)],
           [Some (\<lambda>name. if name = ''RWS [m/s]'' then Fin 3 else Fin 0), None]])"
  by (simp add: pivot_def sample_lidar_def less_char_def less_eq_char_def)

lemma sample_lidar_run:
  "\<exists>ds. lidar_from_csv Inr sample_lidar = Inr ds
     \<and> ds_time ds = [''2017-01-01 00:00:01'', ''2017-01-01 00:00:02'']
     \<and> ds_range ds = [100, 200]
     \<and> ds_vars ds ''RWS'' = Some [[Fin 1, Fin 2], [Fin 3, NaN]]"
  unfolding lidar_from_csv_def sample_lidar_pivot
  by (simp add: Let_def sample_lidar_def measurement_names_def renamed_def level_grid_def)

text \<open>
  An instance: the sample CSV, whose rows come in no particular order and leave one
  cell of the grid empty.
\<close>

theorem lidar_from_csv_grid_witness:
  "\<exists>ds. lidar_from_csv Inr sample_lidar = Inr ds
     \<and> ds_time ds = [''2017-01-01 00:00:01'', ''2017-01-01 00:00:02'']
     \<and> ds_range ds = [100, 200]
     \<and> ds_vars ds ''RWS'' = Some [[Fin 1, Fin 2], [Fin 3, NaN]]
     \<and> (\<exists>index grid.
           distinct index \<and> set index = r_timestamp ` set (csv_rows sample_lidar)
         \<and> map_result Inr index = Inr (ds_time ds)
         \<and> distinct (ds_range ds) \<and> set (ds_range ds) = r_range ` set (csv_rows sample_lidar)
         \<and> ds_vars ds ''RWS'' = Some grid \<and> length grid = length index
         \<and> (\<forall>a<length index. length (grid ! a) = length (ds_range ds))
         \<and> (\<forall>row\<in>set (csv_rows sample_lidar). \<forall>a b.
               a < length index \<and> b < length (ds_range ds)
               \<and> index ! a = r_timestamp row \<and> ds_range ds ! b = r_range row
               \<longrightarrow> grid ! a ! b = r_values row ''RWS [m/s]''))"
proof -
  from sample_lidar_run obtain ds where
    run: "lidar_from_csv Inr sample_lidar = Inr ds"
    and vals: "ds_time ds = [''2017-01-01 00:00:01'', ''2017-01-01 00:00:02'']"
      "ds_range ds = [100, 200]" "ds_vars ds ''RWS'' = Some [[Fin 1, Fin 2], [Fin 3, NaN]]"
    by blast
  from lidar_from_csv_grid[OF run] run vals show ?thesis by blast
qed

section \<open>The wind branch of \<open>lidar_from_csv\<close>\<close>

text \<open>
  C6.  The positions found for the time stamps of the wind CSV are passed under the
  name \<open>Timestamp\<close>, which is not a dimension of \<open>Windspeed\<close>; the dictionary has no
  entry for the dimension \<open>Time\<close>, so the row positions do not address the time axis.
\<close>

theorem windspeed_key_misses_time:
  "''Timestamp'' \<notin> set wspeed_dims
   \<and> map_of (windspeed_key component col_indices row_indices) ''Time'' = None
   \<and> filter (\<lambda>name. name \<notin> set wspeed_dims)
        (map fst (windspeed_key component col_indices row_indices)) = [''Timestamp'']"
  by (simp add: wspeed_dims_def windspeed_key_def)

end
